theory Spec2Isabelle
  imports Main "HOL-Library.Monad_Syntax" "HOL-Library.Sublist" "HOL-Library.Multiset"
begin

chapter \<open>The program\<close>

section \<open>Python values\<close>

text \<open>
  The program is \<^verbatim>\<open>scripts/update_publications.py\<close>. A Python \<^verbatim>\<open>str\<close> is a sequence of
  Unicode code points, so a string is a list of code points (\<open>nat\<close>); \<open>str\<close> turns an
  ASCII literal into one. The records come from \<^verbatim>\<open>json.loads\<close>, so a value is one of the
  shapes JSON has. Numbers with a fraction or an exponent (Python floats) are left out.
  An object is an association list; a key bound twice reads its first binding.
\<close>

type_synonym pstr = "nat list"

definition str :: "string \<Rightarrow> pstr" where
  "str s = map of_char s"

datatype json =
    JNull
  | JBool bool
  | JInt int
  | JStr pstr
  | JArr "json list"
  | JObj "(pstr \<times> json) list"

text \<open>
  A function of the source that can raise returns an \<open>option\<close>: \<open>None\<close> stands for an
  uncaught exception (\<^verbatim>\<open>AttributeError\<close> of \<^verbatim>\<open>.get\<close> on a value that is no dict,
  \<^verbatim>\<open>TypeError\<close> of iterating a number, and so on). At the few places where Python would
  go on with a value of an unexpected type in a way the embedding does not follow (the
  \<^verbatim>\<open>repr\<close> of a list or dict inside an f-string, the ordering of keys that are not
  integers), the model also answers \<open>None\<close>; each such place says so.
\<close>

text \<open>\<^verbatim>\<open>d.get(key, default)\<close>: only a dict has the method.\<close>

fun get :: "json \<Rightarrow> pstr \<Rightarrow> json \<Rightarrow> json option" where
  "get (JObj kvs) key dflt = Some (case map_of kvs key of Some v \<Rightarrow> v | None \<Rightarrow> dflt)"
| "get _ key dflt = None"

text \<open>Truth value of a Python object, as \<^verbatim>\<open>if x:\<close> reads it.\<close>

fun truthy :: "json \<Rightarrow> bool" where
  "truthy JNull = False"
| "truthy (JBool b) = b"
| "truthy (JInt i) = (i \<noteq> 0)"
| "truthy (JStr s) = (s \<noteq> [])"
| "truthy (JArr xs) = (xs \<noteq> [])"
| "truthy (JObj kvs) = (kvs \<noteq> [])"

text \<open>
  \<^verbatim>\<open>for x in v\<close>: a list gives its items, a string its characters, a dict its keys;
  \<^verbatim>\<open>None\<close>, a bool and an int are not iterable.
\<close>

fun iter :: "json \<Rightarrow> json list option" where
  "iter (JArr xs) = Some xs"
| "iter (JStr s) = Some (map (\<lambda>c. JStr [c]) s)"
| "iter (JObj kvs) = Some (map (\<lambda>k. JStr k) (remdups (map fst kvs)))"
| "iter _ = None"

section \<open>DOI extraction\<close>

text \<open>
  \<^verbatim>\<open>
  def extract_doi(pub):
      for ident in pub.get("identifiers", []):
          source = ident.get("source", {})
          source_type = source.get("type", {})
          if source_type.get("label") == "DOI":
              return ident.get("realUrl", "")
      return ""
  \<close>
\<close>

fun extract_doi_loop :: "json list \<Rightarrow> json option" where
  "extract_doi_loop [] = Some (JStr [])"
| "extract_doi_loop (ident # rest) = do {
     source \<leftarrow> get ident (str ''source'') (JObj []);
     source_type \<leftarrow> get source (str ''type'') (JObj []);
     label \<leftarrow> get source_type (str ''label'') JNull;
     if label = JStr (str ''DOI'')
     then get ident (str ''realUrl'') (JStr [])
     else extract_doi_loop rest
   }"

definition extract_doi :: "json \<Rightarrow> json option" where
  "extract_doi pub = do {
     identifiers \<leftarrow> get pub (str ''identifiers'') (JArr []);
     idents \<leftarrow> iter identifiers;
     extract_doi_loop idents
   }"

subsection \<open>The shape of an identifier, in the words of the data model\<close>

text \<open>
  The data model describes an identifier as a pair of a source-type label and a
  resolvable URL, inside a record whose fields may each be missing. \<open>field\<close> reads a key
  of an object without a default; \<open>wf_ident\<close> says that the nesting
  \<^verbatim>\<open>source.type.label\<close> is made of objects where it is present; \<open>is_doi\<close> says that the
  label is there and equals \<^verbatim>\<open>"DOI"\<close>; \<open>real_url\<close> is the URL, empty when missing.
\<close>

definition field :: "json \<Rightarrow> pstr \<Rightarrow> json option" where
  "field j key = (case j of JObj kvs \<Rightarrow> map_of kvs key | _ \<Rightarrow> None)"

fun is_obj :: "json \<Rightarrow> bool" where
  "is_obj (JObj kvs) = True"
| "is_obj _ = False"

definition absent_or :: "(json \<Rightarrow> bool) \<Rightarrow> json option \<Rightarrow> bool" where
  "absent_or P v = (case v of None \<Rightarrow> True | Some x \<Rightarrow> P x)"

definition wf_ident :: "json \<Rightarrow> bool" where
  "wf_ident i = (is_obj i \<and>
     absent_or (\<lambda>s. is_obj s \<and> absent_or is_obj (field s (str ''type''))) (field i (str ''source'')))"

definition is_doi :: "json \<Rightarrow> bool" where
  "is_doi i = (field i (str ''source'') \<bind> (\<lambda>s. field s (str ''type''))
                 \<bind> (\<lambda>t. field t (str ''label'')) = Some (JStr (str ''DOI'')))"

definition real_url :: "json \<Rightarrow> json" where
  "real_url i = (case field i (str ''realUrl'') of Some u \<Rightarrow> u | None \<Rightarrow> JStr [])"

text \<open>
  \<open>has_identifiers pub ids\<close>: the record is an object whose identifiers list, read as
  empty when the key is missing, is \<open>ids\<close>, every entry well formed.
\<close>

definition has_identifiers :: "json \<Rightarrow> json list \<Rightarrow> bool" where
  "has_identifiers pub ids = (is_obj pub \<and>
     (case field pub (str ''identifiers'') of None \<Rightarrow> ids = [] | Some v \<Rightarrow> v = JArr ids) \<and>
     list_all wf_ident ids)"

definition source_type_label :: "json \<Rightarrow> json" where
  "source_type_label i =
     (case field i (str ''source'') \<bind> (\<lambda>s. field s (str ''type''))
             \<bind> (\<lambda>t. field t (str ''label'')) of Some l \<Rightarrow> l | None \<Rightarrow> JNull)"

definition doi_example :: json where
  "doi_example = JObj [(str ''identifiers'', JArr [
     JObj [(str ''source'', JObj [(str ''type'', JObj [(str ''label'', JStr (str ''WoS''))])]),
           (str ''realUrl'', JStr (str ''https://www.webofscience.com/x''))],
     JObj [(str ''realUrl'', JStr (str ''https://doi.org/10.1109/A'')),
           (str ''source'', JObj [(str ''type'', JObj [(str ''label'', JStr (str ''DOI''))])])],
     JObj [(str ''source'', JObj [(str ''type'', JObj [(str ''label'', JStr (str ''DOI''))])]),
           (str ''realUrl'', JStr (str ''https://doi.org/10.1007/B''))]])]"

section \<open>Publisher inference\<close>

text \<open>
  \<^verbatim>\<open>needle in hay\<close> for a string needle: a substring test on a string, membership in a
  list, a key test on a dict; a \<^verbatim>\<open>TypeError\<close> on \<^verbatim>\<open>None\<close>, a bool or an int.
\<close>

fun contains :: "pstr \<Rightarrow> pstr \<Rightarrow> bool" where
  "contains needle [] = (needle = [])"
| "contains needle (c # cs) = (prefix needle (c # cs) \<or> contains needle cs)"

fun py_in :: "pstr \<Rightarrow> json \<Rightarrow> bool option" where
  "py_in needle (JStr s) = Some (contains needle s)"
| "py_in needle (JArr xs) = Some (JStr needle \<in> set xs)"
| "py_in needle (JObj kvs) = Some (needle \<in> fst ` set kvs)"
| "py_in needle _ = None"

text \<open>
  \<^verbatim>\<open>v[0]\<close> on a value already known to be truthy: the first item of a list, the first
  character of a string; a dict from JSON has no key \<^verbatim>\<open>0\<close> (\<^verbatim>\<open>KeyError\<close>), and a
  number is not subscriptable.
\<close>

fun index0 :: "json \<Rightarrow> json option" where
  "index0 (JArr (x # xs)) = Some x"
| "index0 (JStr (c # cs)) = Some (JStr [c])"
| "index0 _ = None"

text \<open>
  \<^verbatim>\<open>
  def get_publisher(pub):
      book = pub.get("book", {})
      if book:
          published_at = book.get("publishedAt", [])
          if published_at:
              city_label = published_at[0].get("label", "")
              country = published_at[0].get("partOf", {}).get("label", "")
              if "Piscataway" in city_label:
                  return "IEEE"
      for ident in pub.get("identifiers", []):
          url = ident.get("realUrl", "")
          if "ieeexplore" in url:
              return "IEEE"
          if "springer" in url:
              return "Springer"
      doi = extract_doi(pub)
      if "10.1109" in doi or "10.23919" in doi:
          return "IEEE"
      if "10.1007" in doi:
          return "Springer"
      if "10.36244" in doi:
          return ""
      return ""
  \<close>
  Each of the three stages either returns a publisher (\<open>Some (Some p)\<close>) or falls
  through to the next (\<open>Some None\<close>).
\<close>

definition get_publisher_book :: "json \<Rightarrow> pstr option option" where
  "get_publisher_book book =
     (if truthy book then do {
        published_at \<leftarrow> get book (str ''publishedAt'') (JArr []);
        if truthy published_at then do {
          first \<leftarrow> index0 published_at;
          city_label \<leftarrow> get first (str ''label'') (JStr []);
          part_of \<leftarrow> get first (str ''partOf'') (JObj []);
          country \<leftarrow> get part_of (str ''label'') (JStr []);
          hit \<leftarrow> py_in (str ''Piscataway'') city_label;
          if hit then Some (Some (str ''IEEE'')) else Some None
        } else Some None
      } else Some None)"

fun get_publisher_idents :: "json list \<Rightarrow> pstr option option" where
  "get_publisher_idents [] = Some None"
| "get_publisher_idents (ident # rest) = do {
     url \<leftarrow> get ident (str ''realUrl'') (JStr []);
     ieee \<leftarrow> py_in (str ''ieeexplore'') url;
     if ieee then Some (Some (str ''IEEE''))
     else do {
       springer \<leftarrow> py_in (str ''springer'') url;
       if springer then Some (Some (str ''Springer''))
       else get_publisher_idents rest
     }
   }"

definition get_publisher_doi :: "json \<Rightarrow> pstr option" where
  "get_publisher_doi doi = do {
     a \<leftarrow> py_in (str ''10.1109'') doi;
     b \<leftarrow> (if a then Some True else py_in (str ''10.23919'') doi);
     if b then Some (str ''IEEE'')
     else do {
       c \<leftarrow> py_in (str ''10.1007'') doi;
       if c then Some (str ''Springer'')
       else do {
         d \<leftarrow> py_in (str ''10.36244'') doi;
         if d then Some [] else Some []
       }
     }
   }"

definition get_publisher :: "json \<Rightarrow> pstr option" where
  "get_publisher pub = do {
     book \<leftarrow> get pub (str ''book'') (JObj []);
     from_book \<leftarrow> get_publisher_book book;
     case from_book of
       Some p \<Rightarrow> Some p
     | None \<Rightarrow> do {
         identifiers \<leftarrow> get pub (str ''identifiers'') (JArr []);
         idents \<leftarrow> iter identifiers;
         from_idents \<leftarrow> get_publisher_idents idents;
         case from_idents of
           Some p \<Rightarrow> Some p
         | None \<Rightarrow> do {
             doi \<leftarrow> extract_doi pub;
             get_publisher_doi doi
           }
       }
   }"

subsection \<open>The rules of publisher inference, in the words of the specification\<close>

text \<open>
  The three checks as predicates on the record. \<open>city_label\<close> is the label of the first
  "published at" entry of a (non-empty) book entry; \<open>url_hit\<close> says that an identifier's
  URL names one of the two publishers; \<open>doi_link\<close> is the URL DOI extraction gives.
\<close>

fun is_str :: "json \<Rightarrow> bool" where
  "is_str (JStr s) = True"
| "is_str _ = False"

fun the_str :: "json \<Rightarrow> pstr" where
  "the_str (JStr s) = s"
| "the_str _ = []"

definition identifiers_of :: "json \<Rightarrow> json list" where
  "identifiers_of pub = (case field pub (str ''identifiers'') of Some (JArr ids) \<Rightarrow> ids | _ \<Rightarrow> [])"

definition city_label :: "json \<Rightarrow> pstr" where
  "city_label pub =
     (case field pub (str ''book'') of
        Some book \<Rightarrow>
          (case field book (str ''publishedAt'') of
             Some (JArr (first # more)) \<Rightarrow>
               (case field first (str ''label'') of Some (JStr l) \<Rightarrow> l | _ \<Rightarrow> [])
           | _ \<Rightarrow> [])
      | None \<Rightarrow> [])"

definition url_of :: "json \<Rightarrow> pstr" where
  "url_of i = the_str (real_url i)"

definition url_hit :: "json \<Rightarrow> bool" where
  "url_hit i = (contains (str ''ieeexplore'') (url_of i) \<or> contains (str ''springer'') (url_of i))"

definition doi_link :: "json \<Rightarrow> pstr" where
  "doi_link pub = (case find is_doi (identifiers_of pub) of None \<Rightarrow> [] | Some i \<Rightarrow> url_of i)"

text \<open>
  The shape the data model gives the fields this function reads: a book entry, when
  there, is an object (or empty), its "published at" a list of objects with a string label
  and an object "part of"; the identifiers are a list of well-formed identifiers whose
  URLs are strings.
\<close>

definition wf_place :: "json \<Rightarrow> bool" where
  "wf_place p = (is_obj p \<and> absent_or is_str (field p (str ''label''))
                 \<and> absent_or is_obj (field p (str ''partOf'')))"

definition wf_published_at :: "json \<Rightarrow> bool" where
  "wf_published_at v = (case v of JArr ps \<Rightarrow> list_all wf_place ps | _ \<Rightarrow> False)"

definition wf_book :: "json \<Rightarrow> bool" where
  "wf_book b = (is_obj b \<and> absent_or wf_published_at (field b (str ''publishedAt'')))"

definition wf_url :: "json \<Rightarrow> bool" where
  "wf_url i = absent_or is_str (field i (str ''realUrl''))"

definition wf_publisher_fields :: "json \<Rightarrow> bool" where
  "wf_publisher_fields pub =
     (has_identifiers pub (identifiers_of pub) \<and> list_all wf_url (identifiers_of pub)
      \<and> absent_or wf_book (field pub (str ''book'')))"

text \<open>The ordered rule list: the first rule that applies gives the publisher.\<close>

definition publisher_rules :: "json \<Rightarrow> pstr" where
  "publisher_rules pub =
     (if contains (str ''Piscataway'') (city_label pub) then str ''IEEE''
      else case find url_hit (identifiers_of pub) of
        Some i \<Rightarrow> if contains (str ''ieeexplore'') (url_of i) then str ''IEEE'' else str ''Springer''
      | None \<Rightarrow>
          if contains (str ''10.1109'') (doi_link pub) \<or> contains (str ''10.23919'') (doi_link pub)
          then str ''IEEE''
          else if contains (str ''10.1007'') (doi_link pub) then str ''Springer''
          else [])"

text \<open>
  \<open>has_doi_prefix p url\<close>: the DOI behind the resolver URL has the registrant prefix \<open>p\<close>.
\<close>

definition has_doi_prefix :: "pstr \<Rightarrow> pstr \<Rightarrow> bool" where
  "has_doi_prefix p url = prefix (str ''https://doi.org/'' @ p @ str ''/'') url"

definition publisher_example :: json where
  "publisher_example = JObj [
     (str ''book'', JObj [(str ''title'', JStr (str ''Proc. X'')),
        (str ''publishedAt'', JArr [JObj [(str ''label'', JStr (str ''Piscataway (NJ)'')),
                                          (str ''partOf'', JObj [(str ''label'', JStr (str ''USA''))])]])]),
     (str ''identifiers'', JArr [
        JObj [(str ''source'', JObj [(str ''type'', JObj [(str ''label'', JStr (str ''DOI''))])]),
              (str ''realUrl'', JStr (str ''https://doi.org/10.1007/978-3'')) ],
        JObj [(str ''realUrl'', JStr (str ''https://link.springer.com/chapter/1''))]])]"

definition suppressed_example :: json where
  "suppressed_example = JObj [
     (str ''identifiers'', JArr [
        JObj [(str ''source'', JObj [(str ''type'', JObj [(str ''label'', JStr (str ''DOI''))])]),
              (str ''realUrl'', JStr (str ''https://doi.org/10.36244/ICJ.2010.1109'')) ]])]"

section \<open>Journal-title cleanup\<close>

text \<open>
  \<^verbatim>\<open>
  def clean_journal_title(raw_title):
      cleaned = re.sub(r"\s+\d{4}-\d{3}[\dXx](\s+\d{4}-\d{3}[\dXx])*", "", raw_title)
      cleaned = cleaned.strip()
      if cleaned == cleaned.upper() and len(cleaned) > 5:
          cleaned = cleaned.title()
      return cleaned
  \<close>
  \<open>is_space\<close> is Python's \<^verbatim>\<open>str.isspace\<close> on one code point, which is what both
  \<^verbatim>\<open>strip()\<close> and the \<^verbatim>\<open>\s\<close> of a \<^verbatim>\<open>str\<close> pattern test.
\<close>

definition is_space :: "nat \<Rightarrow> bool" where
  "is_space c = (c \<in> {9, 10, 11, 12, 13, 28, 29, 30, 31, 32, 133, 160, 5760, 8232, 8233, 8239, 8287, 12288}
                 \<or> (8192 \<le> c \<and> c \<le> 8202))"

definition py_strip :: "pstr \<Rightarrow> pstr" where
  "py_strip s = rev (dropWhile is_space (rev (dropWhile is_space s)))"

text \<open>
  The case mappings \<^verbatim>\<open>str.upper()\<close>, \<^verbatim>\<open>str.lower()\<close>, \<^verbatim>\<open>str.title()\<close> and the class
  \<^verbatim>\<open>\d\<close> of a \<^verbatim>\<open>str\<close> pattern are read off the Unicode character database, tables of
  the interpreter that are no part of the repository. They are a parameter \<open>L\<close> of every
  function that calls them. A theorem holds for every \<open>L\<close>, or names the facts of \<open>L\<close> it
  uses.
\<close>

record str_methods =
  str_upper :: "pstr \<Rightarrow> pstr"
  str_lower :: "pstr \<Rightarrow> pstr"
  str_title :: "pstr \<Rightarrow> pstr"
  re_digit :: "nat \<Rightarrow> bool"

text \<open>
  The regular expression. \<open>issn_at\<close> is \<^verbatim>\<open>\d{4}-\d{3}[\dXx]\<close> at the head of the text.
  \<open>match_ws_issn\<close> is \<^verbatim>\<open>\s+\d{4}-\d{3}[\dXx]\<close> at the head: the greedy \<^verbatim>\<open>\s+\<close> takes
  the whole run of whitespace, and giving part of it back cannot help, since a digit
  must follow and no whitespace character is a digit; the result is the text after the
  match. \<open>match_issn_more\<close> is the starred
  group, taken as often as it matches. \<open>sub_issn\<close> is \<^verbatim>\<open>re.sub(pattern, "", text)\<close>:
  at each position, leftmost first, a match is dropped and the scan goes on after it.
\<close>

fun issn_at :: "str_methods \<Rightarrow> pstr \<Rightarrow> bool" where
  "issn_at L (d1 # d2 # d3 # d4 # h # d5 # d6 # d7 # x # rest) =
     (re_digit L d1 \<and> re_digit L d2 \<and> re_digit L d3 \<and> re_digit L d4 \<and> h = 45
      \<and> re_digit L d5 \<and> re_digit L d6 \<and> re_digit L d7
      \<and> (re_digit L x \<or> x = 88 \<or> x = 120))"
| "issn_at L _ = False"

definition match_ws_issn :: "str_methods \<Rightarrow> pstr \<Rightarrow> pstr option" where
  "match_ws_issn L s =
     (let rest = dropWhile is_space s
      in if length rest < length s \<and> issn_at L rest then Some (drop 9 rest) else None)"

lemma match_ws_issn_shorter: "match_ws_issn L s = Some rest \<Longrightarrow> length rest < length s"
  by (auto simp: match_ws_issn_def Let_def split: if_splits)

function match_issn_more :: "str_methods \<Rightarrow> pstr \<Rightarrow> pstr" where
  "match_issn_more L s = (case match_ws_issn L s of Some rest \<Rightarrow> match_issn_more L rest | None \<Rightarrow> s)"
  by pat_completeness auto

termination
  by (relation "measure (\<lambda>(L, s). length s)") (auto dest: match_ws_issn_shorter)

declare match_issn_more.simps [simp del]

lemma match_issn_more_length: "length (match_issn_more L s) \<le> length s"
proof (induction L s rule: match_issn_more.induct)
  case (1 L s)
  show ?case
  proof (cases "match_ws_issn L s")
    case None
    then show ?thesis by (simp add: match_issn_more.simps [of L s])
  next
    case (Some rest)
    with 1 have "length (match_issn_more L rest) \<le> length rest" by simp
    moreover have "length rest < length s" using Some by (rule match_ws_issn_shorter)
    ultimately show ?thesis using Some by (simp add: match_issn_more.simps [of L s])
  qed
qed

function sub_issn :: "str_methods \<Rightarrow> pstr \<Rightarrow> pstr" where
  "sub_issn L [] = []"
| "sub_issn L (c # cs) =
     (case match_ws_issn L (c # cs) of
        Some rest \<Rightarrow> sub_issn L (match_issn_more L rest)
      | None \<Rightarrow> c # sub_issn L cs)"
  by pat_completeness auto

termination
proof (relation "measure (\<lambda>(L, s). length s)")
  fix L c cs rest
  assume "match_ws_issn L (c # cs) = Some rest"
  then have "length rest < length (c # cs)" by (rule match_ws_issn_shorter)
  moreover have "length (match_issn_more L rest) \<le> length rest" by (rule match_issn_more_length)
  ultimately show "((L, match_issn_more L rest), (L, c # cs)) \<in> measure (\<lambda>(L, s). length s)"
    by simp
qed simp_all

definition clean_journal_title :: "str_methods \<Rightarrow> pstr \<Rightarrow> pstr" where
  "clean_journal_title L raw_title =
     (let cleaned = py_strip (sub_issn L raw_title)
      in if cleaned = str_upper L cleaned \<and> length cleaned > 5 then str_title L cleaned
         else cleaned)"

text \<open>
  \<open>has_issn L t\<close>: somewhere in \<open>t\<close> an ISSN-shaped token follows whitespace, that is, the
  pattern matches somewhere. \<open>stripped t\<close>: \<open>t\<close> neither begins nor ends with whitespace.
\<close>

fun has_issn :: "str_methods \<Rightarrow> pstr \<Rightarrow> bool" where
  "has_issn L [] = False"
| "has_issn L (c # cs) = (match_ws_issn L (c # cs) \<noteq> None \<or> has_issn L cs)"

definition stripped :: "pstr \<Rightarrow> bool" where
  "stripped s = (s = [] \<or> (\<not> is_space (hd s) \<and> \<not> is_space (last s)))"

subsection \<open>The string methods on ASCII text\<close>

text \<open>
  What the four library functions do on a text of ASCII characters: the letters a to z
  and A to Z are the cased characters, each mapped to its counterpart, and the decimal
  digits are 0 to 9. \<^verbatim>\<open>str.title()\<close> raises a letter that follows an uncased character
  (or begins the text) and lowers a letter that follows a cased one. \<open>ascii_methods\<close>
  collects them; the example records are ASCII text, and evaluated with them.
\<close>

definition is_digit :: "nat \<Rightarrow> bool" where
  "is_digit c = (48 \<le> c \<and> c \<le> 57)"

definition is_lower :: "nat \<Rightarrow> bool" where
  "is_lower c = (97 \<le> c \<and> c \<le> 122)"

definition is_upper :: "nat \<Rightarrow> bool" where
  "is_upper c = (65 \<le> c \<and> c \<le> 90)"

definition upper_char :: "nat \<Rightarrow> nat" where
  "upper_char c = (if is_lower c then c - 32 else c)"

definition lower_char :: "nat \<Rightarrow> nat" where
  "lower_char c = (if is_upper c then c + 32 else c)"

definition ascii_upper :: "pstr \<Rightarrow> pstr" where
  "ascii_upper s = map upper_char s"

definition ascii_lower :: "pstr \<Rightarrow> pstr" where
  "ascii_lower s = map lower_char s"

fun title_from :: "bool \<Rightarrow> pstr \<Rightarrow> pstr" where
  "title_from previous_is_cased [] = []"
| "title_from previous_is_cased (c # cs) =
     (if previous_is_cased then lower_char c else upper_char c)
       # title_from (is_lower c \<or> is_upper c) cs"

definition ascii_title :: "pstr \<Rightarrow> pstr" where
  "ascii_title s = title_from False s"

definition ascii_methods :: str_methods where
  "ascii_methods = \<lparr>str_upper = ascii_upper, str_lower = ascii_lower, str_title = ascii_title,
                     re_digit = is_digit\<rparr>"

definition ascii :: "pstr \<Rightarrow> bool" where
  "ascii s = list_all (\<lambda>c. c < 128) s"

text \<open>
  Two facts of the library that the theorem on repeated cleanup uses. \<open>ascii_agree L\<close>:
  on ASCII text \<open>L\<close> does what is written out above. \<open>title_settles L\<close>: title-casing
  puts no whitespace at either end of a text that had none; and a text that is its own
  upper-case form, and whose title-cased form is again its own upper-case form, is
  title-cased to a text that title-casing leaves as it is. (Title-casing twice is not
  the same as once for every text: an uncased mark after a letter starts a new word.)
\<close>

definition ascii_agree :: "str_methods \<Rightarrow> bool" where
  "ascii_agree L =
     ((\<forall>s. ascii s \<longrightarrow> str_upper L s = ascii_upper s \<and> str_lower L s = ascii_lower s
                        \<and> str_title L s = ascii_title s)
      \<and> (\<forall>c. c < 128 \<longrightarrow> re_digit L c = is_digit c))"

definition title_settles :: "str_methods \<Rightarrow> bool" where
  "title_settles L =
     ((\<forall>t. stripped t \<longrightarrow> stripped (str_title L t))
      \<and> (\<forall>t. str_upper L t = t \<and> str_upper L (str_title L t) = str_title L t
             \<longrightarrow> str_title L (str_title L t) = str_title L t))"

section \<open>Venue extraction\<close>

text \<open>
  \<^verbatim>\<open>
  def extract_venue(pub):
      book = pub.get("book", {})
      if book:
          venue = book.get("title", "")
      else:
          venue = ""
      journal = pub.get("journal", {})
      if journal:
          raw = journal.get("title", journal.get("label", venue))
          venue = clean_journal_title(raw)
      volume = pub.get("volume", "")
      issue = pub.get("issue", "")
      if volume:
          venue += f", vol. {volume}"
      if issue:
          venue += f", no. {issue}"
      first_page = pub.get("firstPage", "")
      last_page = pub.get("lastPage", "")
      if first_page and last_page and first_page != last_page:
          venue += f", pp. {first_page}\u2013{last_page}"
      elif first_page and last_page:
          venue += f", p. {first_page}"
      return venue
  \<close>
  \<open>py_format\<close> is what an f-string puts for a value: the string itself, the decimal
  digits of an int, \<^verbatim>\<open>True\<close>, \<^verbatim>\<open>False\<close>, \<^verbatim>\<open>None\<close>; the \<^verbatim>\<open>repr\<close> of a list or dict is
  not followed (\<open>None\<close>). \<open>iadd_str\<close> is \<^verbatim>\<open>venue += text\<close>: a string is extended, a list
  takes the characters as new items, anything else is a \<^verbatim>\<open>TypeError\<close>. \<open>py_eq\<close> is
  \<^verbatim>\<open>==\<close> (a bool equals the int of its value); the comparison of two lists or of two
  dicts is not followed. \<open>re_sub_arg\<close>: \<^verbatim>\<open>re.sub\<close> raises \<^verbatim>\<open>TypeError\<close> on a text that
  is no string.
\<close>

fun digits_of :: "nat \<Rightarrow> pstr" where
  "digits_of n = (if n < 10 then [48 + n] else digits_of (n div 10) @ [48 + n mod 10])"

declare digits_of.simps [simp del]

definition str_of_int :: "int \<Rightarrow> pstr" where
  "str_of_int i = (if i < 0 then 45 # digits_of (nat (- i)) else digits_of (nat i))"

fun py_format :: "json \<Rightarrow> pstr option" where
  "py_format (JStr s) = Some s"
| "py_format (JInt i) = Some (str_of_int i)"
| "py_format (JBool b) = Some (if b then str ''True'' else str ''False'')"
| "py_format JNull = Some (str ''None'')"
| "py_format _ = None"

fun iadd_str :: "json \<Rightarrow> pstr \<Rightarrow> json option" where
  "iadd_str (JStr v) s = Some (JStr (v @ s))"
| "iadd_str (JArr xs) s = Some (JArr (xs @ map (\<lambda>c. JStr [c]) s))"
| "iadd_str _ s = None"

fun num_of :: "json \<Rightarrow> int option" where
  "num_of (JBool b) = Some (if b then 1 else 0)"
| "num_of (JInt i) = Some i"
| "num_of _ = None"

fun py_eq :: "json \<Rightarrow> json \<Rightarrow> bool option" where
  "py_eq (JArr xs) (JArr ys) = None"
| "py_eq (JObj xs) (JObj ys) = None"
| "py_eq a b = (case (num_of a, num_of b) of
                  (Some x, Some y) \<Rightarrow> Some (x = y)
                | _ \<Rightarrow> Some (a = b))"

fun re_sub_arg :: "json \<Rightarrow> pstr option" where
  "re_sub_arg (JStr s) = Some s"
| "re_sub_arg _ = None"

definition extract_venue :: "str_methods \<Rightarrow> json \<Rightarrow> json option" where
  "extract_venue L pub = do {
     book \<leftarrow> get pub (str ''book'') (JObj []);
     venue \<leftarrow> (if truthy book then get book (str ''title'') (JStr []) else Some (JStr []));
     journal \<leftarrow> get pub (str ''journal'') (JObj []);
     venue \<leftarrow> (if truthy journal then do {
                  label \<leftarrow> get journal (str ''label'') venue;
                  raw \<leftarrow> get journal (str ''title'') label;
                  raw_title \<leftarrow> re_sub_arg raw;
                  Some (JStr (clean_journal_title L raw_title))
                } else Some venue);
     volume \<leftarrow> get pub (str ''volume'') (JStr []);
     issue \<leftarrow> get pub (str ''issue'') (JStr []);
     venue \<leftarrow> (if truthy volume then do {
                  v \<leftarrow> py_format volume;
                  iadd_str venue (str '', vol. '' @ v)
                } else Some venue);
     venue \<leftarrow> (if truthy issue then do {
                  i \<leftarrow> py_format issue;
                  iadd_str venue (str '', no. '' @ i)
                } else Some venue);
     first_page \<leftarrow> get pub (str ''firstPage'') (JStr []);
     last_page \<leftarrow> get pub (str ''lastPage'') (JStr []);
     if truthy first_page \<and> truthy last_page then do {
       same \<leftarrow> py_eq first_page last_page;
       if \<not> same then do {
         f \<leftarrow> py_format first_page;
         l \<leftarrow> py_format last_page;
         iadd_str venue (str '', pp. '' @ f @ [8211] @ l)
       } else do {
         f \<leftarrow> py_format first_page;
         iadd_str venue (str '', p. '' @ f)
       }
     } else Some venue
   }"

subsection \<open>The venue, in the words of the specification\<close>

text \<open>
  \<open>fld\<close> and \<open>entry\<close> read a key with the defaults \<^verbatim>\<open>""\<close> and \<^verbatim>\<open>{}\<close>. \<open>book_title\<close> is the
  seed the book entry gives; \<open>journal_source\<close> the text the journal branch picks: the
  journal's title, else its label, else the seed; \<open>locators\<close> the suffix of volume, issue
  and pages. \<open>wf_venue_fields\<close> is the shape of the data model: book and journal entries
  are objects with string titles and labels, the locator fields are strings or ints.
\<close>

definition fld :: "json \<Rightarrow> pstr \<Rightarrow> json" where
  "fld j key = (case field j key of Some v \<Rightarrow> v | None \<Rightarrow> JStr [])"

definition entry :: "json \<Rightarrow> pstr \<Rightarrow> json" where
  "entry j key = (case field j key of Some v \<Rightarrow> v | None \<Rightarrow> JObj [])"

definition book_title :: "json \<Rightarrow> pstr" where
  "book_title pub =
     (if truthy (entry pub (str ''book'')) then the_str (fld (entry pub (str ''book'')) (str ''title''))
      else [])"

definition journal_source :: "json \<Rightarrow> pstr" where
  "journal_source pub =
     (case field (entry pub (str ''journal'')) (str ''title'') of
        Some t \<Rightarrow> the_str t
      | None \<Rightarrow>
          (case field (entry pub (str ''journal'')) (str ''label'') of
             Some l \<Rightarrow> the_str l
           | None \<Rightarrow> book_title pub))"

definition fmt :: "json \<Rightarrow> pstr" where
  "fmt v = (case py_format v of Some s \<Rightarrow> s | None \<Rightarrow> [])"

definition locators :: "json \<Rightarrow> pstr" where
  "locators pub =
     (if truthy (fld pub (str ''volume'')) then str '', vol. '' @ fmt (fld pub (str ''volume'')) else [])
     @ (if truthy (fld pub (str ''issue'')) then str '', no. '' @ fmt (fld pub (str ''issue'')) else [])
     @ (if truthy (fld pub (str ''firstPage'')) \<and> truthy (fld pub (str ''lastPage''))
        then (if fld pub (str ''firstPage'') \<noteq> fld pub (str ''lastPage'')
              then str '', pp. '' @ fmt (fld pub (str ''firstPage'')) @ [8211]
                     @ fmt (fld pub (str ''lastPage''))
              else str '', p. '' @ fmt (fld pub (str ''firstPage'')))
        else [])"

fun is_text :: "json \<Rightarrow> bool" where
  "is_text (JStr s) = True"
| "is_text (JInt i) = True"
| "is_text _ = False"

definition wf_titled :: "json \<Rightarrow> bool" where
  "wf_titled b = (is_obj b \<and> absent_or is_str (field b (str ''title'')))"

definition wf_journal :: "json \<Rightarrow> bool" where
  "wf_journal j = (is_obj j \<and> absent_or is_str (field j (str ''title''))
                   \<and> absent_or is_str (field j (str ''label'')))"

definition wf_venue_fields :: "json \<Rightarrow> bool" where
  "wf_venue_fields pub =
     (is_obj pub \<and> absent_or wf_titled (field pub (str ''book''))
      \<and> absent_or wf_journal (field pub (str ''journal''))
      \<and> absent_or is_text (field pub (str ''volume''))
      \<and> absent_or is_text (field pub (str ''issue''))
      \<and> absent_or is_text (field pub (str ''firstPage''))
      \<and> absent_or is_text (field pub (str ''lastPage'')))"

definition venue_base :: "str_methods \<Rightarrow> json \<Rightarrow> pstr" where
  "venue_base L pub =
     (if truthy (entry pub (str ''journal'')) then clean_journal_title L (journal_source pub)
      else book_title pub)"

subsection \<open>Example records\<close>

definition sensors :: json where
  "sensors = JObj [(str ''journal'', JObj [(str ''title'', JStr (str ''Sensors''))]),
     (str ''volume'', JStr (str ''21'')), (str ''issue'', JInt 4),
     (str ''firstPage'', JStr (str ''100'')), (str ''lastPage'', JStr (str ''110''))]"

definition book_only :: json where
  "book_only = JObj [(str ''book'', JObj [(str ''title'', JStr (str ''PROCEEDINGS OF X 1234-5678''))])]"

definition book_and_bare_journal :: json where
  "book_and_bare_journal = JObj [
     (str ''book'', JObj [(str ''title'', JStr (str ''PROCEEDINGS OF X 1234-5678''))]),
     (str ''journal'', JObj [(str ''mtid'', JInt 7)])]"

definition volume_only :: json where
  "volume_only = JObj [(str ''volume'', JStr (str ''7''))]"

definition first_page_only :: json where
  "first_page_only = JObj [(str ''firstPage'', JStr (str ''5''))]"

section \<open>Author string\<close>

text \<open>
  \<^verbatim>\<open>
  def extract_authors(pub):
      authorships = sorted(
          [a for a in pub.get("authorships", []) if a.get("authorTyped", False)],
          key=lambda a: a.get("listPosition", 999),
      )
      parts = []
      for a in authorships:
          given = a.get("givenName", "")
          family = a.get("familyName", "")
          initial = given[0] + "." if given else ""
          name = f"{initial} {family}".strip()
          author_obj = a.get("author", {})
          if author_obj.get("mtid") == AUTHOR_MTID:
              parts.append(f"<strong>{name}</strong>")
          else:
              parts.append(name)
      return ", ".join(parts)
  \<close>
  \<open>counted\<close> is the list comprehension. \<open>sorted_by_position\<close> is \<^verbatim>\<open>sorted\<close> with the
  key function: the keys are computed first, then a stable sort orders the items by
  key. The ordering of keys that are not all integers (a \<^verbatim>\<open>TypeError\<close> for mixed
  types, an order of their own for strings or lists) is not followed: \<open>position_key\<close>
  answers \<open>None\<close> for a key that is no int. \<open>add_str\<close> is \<^verbatim>\<open>given[0] + "."\<close>, a
  \<^verbatim>\<open>TypeError\<close> unless the item is a string.
\<close>

definition AUTHOR_MTID :: int where
  "AUTHOR_MTID = 10081350"

fun counted :: "json list \<Rightarrow> json list option" where
  "counted [] = Some []"
| "counted (a # rest) = do {
     flag \<leftarrow> get a (str ''authorTyped'') (JBool False);
     more \<leftarrow> counted rest;
     Some (if truthy flag then a # more else more)
   }"

definition position_key :: "json \<Rightarrow> int option" where
  "position_key a = do {
     k \<leftarrow> get a (str ''listPosition'') (JInt 999);
     case k of JInt i \<Rightarrow> Some i | _ \<Rightarrow> None
   }"

fun keyed :: "json list \<Rightarrow> (int \<times> json) list option" where
  "keyed [] = Some []"
| "keyed (a # rest) = do {
     k \<leftarrow> position_key a;
     more \<leftarrow> keyed rest;
     Some ((k, a) # more)
   }"

definition sorted_by_position :: "json list \<Rightarrow> json list option" where
  "sorted_by_position as = do {
     pairs \<leftarrow> keyed as;
     Some (map snd (sort_key fst pairs))
   }"

fun add_str :: "json \<Rightarrow> pstr \<Rightarrow> pstr option" where
  "add_str (JStr s) t = Some (s @ t)"
| "add_str _ t = None"

fun join :: "pstr \<Rightarrow> pstr list \<Rightarrow> pstr" where
  "join sep [] = []"
| "join sep [p] = p"
| "join sep (p # q # ps) = p @ sep @ join sep (q # ps)"

definition author_part :: "json \<Rightarrow> pstr option" where
  "author_part a = do {
     given \<leftarrow> get a (str ''givenName'') (JStr []);
     family \<leftarrow> get a (str ''familyName'') (JStr []);
     initial \<leftarrow> (if truthy given then do { g \<leftarrow> index0 given; add_str g (str ''.'') }
                 else Some []);
     fam \<leftarrow> py_format family;
     author_obj \<leftarrow> get a (str ''author'') (JObj []);
     mtid \<leftarrow> get author_obj (str ''mtid'') JNull;
     Some (let name = py_strip (initial @ str '' '' @ fam)
           in if num_of mtid = Some AUTHOR_MTID
              then str ''<strong>'' @ name @ str ''</strong>''
              else name)
   }"

fun author_parts :: "json list \<Rightarrow> pstr list option" where
  "author_parts [] = Some []"
| "author_parts (a # rest) = do {
     part \<leftarrow> author_part a;
     more \<leftarrow> author_parts rest;
     Some (part # more)
   }"

definition extract_authors :: "json \<Rightarrow> pstr option" where
  "extract_authors pub = do {
     listed \<leftarrow> get pub (str ''authorships'') (JArr []);
     items \<leftarrow> iter listed;
     typed \<leftarrow> counted items;
     authorships \<leftarrow> sorted_by_position typed;
     parts \<leftarrow> author_parts authorships;
     Some (join (str '', '') parts)
   }"

definition authors_example :: json where
  "authors_example = JObj [(str ''authorships'', JArr [
     JObj [(str ''authorTyped'', JBool True), (str ''givenName'', JStr (str ''Carol'')),
           (str ''familyName'', JStr (str ''Late''))],
     JObj [(str ''authorTyped'', JBool True), (str ''listPosition'', JInt 2),
           (str ''givenName'', JStr (str ''Marcell'')), (str ''familyName'', JStr (str ''Balogh'')),
           (str ''author'', JObj [(str ''mtid'', JInt 10081350)])],
     JObj [(str ''authorTyped'', JBool False), (str ''listPosition'', JInt 0),
           (str ''familyName'', JStr (str ''Editor''))],
     JObj [(str ''authorTyped'', JBool True), (str ''listPosition'', JInt 1),
           (str ''familyName'', JStr (str ''Solo''))]])]"

definition late_position_example :: json where
  "late_position_example = JObj [(str ''authorships'', JArr [
     JObj [(str ''authorTyped'', JBool True), (str ''listPosition'', JInt 1000),
           (str ''familyName'', JStr (str ''Positioned''))],
     JObj [(str ''authorTyped'', JBool True), (str ''familyName'', JStr (str ''Unpositioned''))]])]"

subsection \<open>The authorships, in the words of the specification\<close>

text \<open>
  \<open>is_counted\<close>: the "is counted author" flag; \<open>list_position\<close>: the list position, if
  the authorship has one; \<open>sort_position\<close>: the position with the sentinel 999 for a
  missing one; \<open>author_segment\<close>: the text the renderer puts for one authorship.
  \<open>wf_authorships\<close> is the shape of the data model: a list of objects with an integer
  position, string names and an author object, each possibly missing.
\<close>

fun is_int :: "json \<Rightarrow> bool" where
  "is_int (JInt i) = True"
| "is_int _ = False"

definition authorships_of :: "json \<Rightarrow> json list" where
  "authorships_of pub = (case field pub (str ''authorships'') of Some (JArr as) \<Rightarrow> as | _ \<Rightarrow> [])"

definition is_counted :: "json \<Rightarrow> bool" where
  "is_counted a = truthy (case field a (str ''authorTyped'') of Some v \<Rightarrow> v | None \<Rightarrow> JBool False)"

definition list_position :: "json \<Rightarrow> int option" where
  "list_position a = (case field a (str ''listPosition'') of Some (JInt i) \<Rightarrow> Some i | _ \<Rightarrow> None)"

definition sort_position :: "json \<Rightarrow> int" where
  "sort_position a = (case list_position a of Some i \<Rightarrow> i | None \<Rightarrow> 999)"

definition author_segment :: "json \<Rightarrow> pstr" where
  "author_segment a = (case author_part a of Some p \<Rightarrow> p | None \<Rightarrow> [])"

definition ordered_authorships :: "json \<Rightarrow> json list" where
  "ordered_authorships pub = sort_key sort_position (filter is_counted (authorships_of pub))"

definition wf_authorship :: "json \<Rightarrow> bool" where
  "wf_authorship a = (is_obj a
     \<and> absent_or is_int (field a (str ''listPosition''))
     \<and> absent_or is_str (field a (str ''givenName''))
     \<and> absent_or is_str (field a (str ''familyName''))
     \<and> absent_or is_obj (field a (str ''author'')))"

definition wf_authorships :: "json \<Rightarrow> bool" where
  "wf_authorships pub = (is_obj pub
     \<and> (case field pub (str ''authorships'') of None \<Rightarrow> True | Some (JArr as) \<Rightarrow> True | _ \<Rightarrow> False)
     \<and> list_all wf_authorship (authorships_of pub))"

section \<open>Type classification\<close>

text \<open>
  \<^verbatim>\<open>
  def get_pub_type(pub):
      sub_type = pub.get("subType", {})
      sub_label = sub_type.get("nameEng", "").lower()
      main_type = pub.get("type", {})
      main_label = main_type.get("label", "").lower()
      if "journal" in main_label or pub.get("journal"):
          return "journal"
      if "conference" in sub_label or pub.get("conferencePublication", False):
          return "conference"
      if "book" in main_label:
          if "conference" in sub_label:
              return "conference"
          return "journal"
      return "conference"
  \<close>
  Only a string has \<^verbatim>\<open>.lower()\<close> (\<open>lower_arg\<close>).
\<close>

fun lower_arg :: "str_methods \<Rightarrow> json \<Rightarrow> pstr option" where
  "lower_arg L (JStr s) = Some (str_lower L s)"
| "lower_arg L _ = None"

definition get_pub_type :: "str_methods \<Rightarrow> json \<Rightarrow> pstr option" where
  "get_pub_type L pub = do {
     sub_type \<leftarrow> get pub (str ''subType'') (JObj []);
     name_eng \<leftarrow> get sub_type (str ''nameEng'') (JStr []);
     sub_label \<leftarrow> lower_arg L name_eng;
     main_type \<leftarrow> get pub (str ''type'') (JObj []);
     label \<leftarrow> get main_type (str ''label'') (JStr []);
     main_label \<leftarrow> lower_arg L label;
     journal \<leftarrow> get pub (str ''journal'') JNull;
     if contains (str ''journal'') main_label \<or> truthy journal then Some (str ''journal'')
     else do {
       flag \<leftarrow> get pub (str ''conferencePublication'') (JBool False);
       if contains (str ''conference'') sub_label \<or> truthy flag then Some (str ''conference'')
       else if contains (str ''book'') main_label then
         (if contains (str ''conference'') sub_label then Some (str ''conference'')
          else Some (str ''journal''))
       else Some (str ''conference'')
     }
   }"

section \<open>Renderer\<close>

text \<open>
  \<^verbatim>\<open>html.escape(s)\<close> replaces the five characters \<^verbatim>\<open>& < > " '\<close>; it calls
  \<^verbatim>\<open>s.replace\<close>, which only a string has (\<open>html_escape_arg\<close>).
\<close>

definition escape_char :: "nat \<Rightarrow> pstr" where
  "escape_char c =
     (if c = 38 then str ''&amp;''
      else if c = 60 then str ''&lt;''
      else if c = 62 then str ''&gt;''
      else if c = 34 then str ''&quot;''
      else if c = 39 then str ''&#x27;''
      else [c])"

definition html_escape :: "pstr \<Rightarrow> pstr" where
  "html_escape s = concat (map escape_char s)"

fun html_escape_arg :: "json \<Rightarrow> pstr option" where
  "html_escape_arg (JStr s) = Some (html_escape s)"
| "html_escape_arg _ = None"

text \<open>
  \<^verbatim>\<open>
  def build_html(publications):
      by_year = defaultdict(list)
      for pub in publications:
          year = pub.get("publishedYear", 0)
          if year:
              by_year[year].append(pub)
      html_parts = []
      I = "            "  # 12 spaces
      for year in sorted(by_year.keys(), reverse=True):
          html_parts.append(f'{I}<div class="year-group">')
          html_parts.append(f'{I}    <div class="year-label">{year}</div>')
          html_parts.append("")
          for pub in by_year[year]:
              title = html.escape(pub.get("title", "Unknown Title"))
              doi_url = extract_doi(pub)
              authors = extract_authors(pub)
              venue = html.escape(extract_venue(pub))
              pub_type = get_pub_type(pub)
              publisher = get_publisher(pub)
              citing_total = pub.get("citingPubCount", 0)
              badge_class = "badge-journal" if pub_type == "journal" else "badge-conference"
              badge_label = "Journal" if pub_type == "journal" else "Conference"
              if doi_url:
                  title_html = f'<a href="{doi_url}" target="_blank" rel="noopener">{title}</a>'
              else:
                  title_html = title
              html_parts.append(f'{I}    <div class="pub-item">')
              html_parts.append(f'{I}        <div class="pub-title">')
              html_parts.append(f"{I}            {title_html}")
              html_parts.append(f"{I}        </div>")
              html_parts.append(f'{I}        <div class="pub-authors">{authors}</div>')
              html_parts.append(f'{I}        <div class="pub-venue">{venue}</div>')
              meta_parts = [f'<span class="pub-badge {badge_class}">{badge_label}</span>']
              if publisher:
                  meta_parts.append(f"<span>{publisher}</span>")
              if citing_total > 0:
                  meta_parts.append(f'<span class="badge-citations">Cited by {citing_total}</span>')
              html_parts.append(f'{I}        <div class="pub-meta">')
              for mp in meta_parts:
                  html_parts.append(f"{I}            {mp}")
              html_parts.append(f"{I}        </div>")
              html_parts.append(f"{I}    </div>")
              html_parts.append("")
          html_parts.append(f"{I}</div>")
          html_parts.append("")
      return "\n".join(html_parts)
  \<close>
  \<open>pub_item\<close> is the body of the inner loop: the lines it appends for one record.
  \<open>by_year_of\<close> is the first loop: the records with a truthy year, each with its year,
  in input order. A year that is truthy and no int (a string, \<^verbatim>\<open>True\<close>) is not followed.
  The years are distinct dictionary keys, so sorting them in reverse is the descending
  order of the distinct years; \<open>year_group\<close> renders the records of one year in input
  order. \<^verbatim>\<open>citing_total > 0\<close> is a \<^verbatim>\<open>TypeError\<close> unless the count is a number.
\<close>

definition I :: pstr where
  "I = str ''            ''"

fun traverse :: "('a \<Rightarrow> 'b option) \<Rightarrow> 'a list \<Rightarrow> 'b list option" where
  "traverse f [] = Some []"
| "traverse f (x # xs) = do { y \<leftarrow> f x; ys \<leftarrow> traverse f xs; Some (y # ys) }"

definition title_html_of :: "pstr \<Rightarrow> json \<Rightarrow> pstr option" where
  "title_html_of title doi_url =
     (if truthy doi_url then do {
        url \<leftarrow> py_format doi_url;
        Some (str ''<a href=\"'' @ url @ str ''\" target=\"_blank\" rel=\"noopener\">'' @ title @ str ''</a>'')
      } else Some title)"

definition meta_parts_of :: "pstr \<Rightarrow> pstr \<Rightarrow> pstr \<Rightarrow> json \<Rightarrow> pstr list option" where
  "meta_parts_of badge_class badge_label publisher citing_total = do {
     n \<leftarrow> num_of citing_total;
     cited \<leftarrow> py_format citing_total;
     Some ([str ''<span class=\"pub-badge '' @ badge_class @ str ''\">'' @ badge_label @ str ''</span>'']
           @ (if publisher \<noteq> [] then [str ''<span>'' @ publisher @ str ''</span>''] else [])
           @ (if n > 0 then [str ''<span class=\"badge-citations\">Cited by '' @ cited @ str ''</span>'']
              else []))
   }"

definition pub_item :: "str_methods \<Rightarrow> json \<Rightarrow> pstr list option" where
  "pub_item L pub = do {
     raw_title \<leftarrow> get pub (str ''title'') (JStr (str ''Unknown Title''));
     title \<leftarrow> html_escape_arg raw_title;
     doi_url \<leftarrow> extract_doi pub;
     authors \<leftarrow> extract_authors pub;
     raw_venue \<leftarrow> extract_venue L pub;
     venue \<leftarrow> html_escape_arg raw_venue;
     pub_type \<leftarrow> get_pub_type L pub;
     publisher \<leftarrow> get_publisher pub;
     citing_total \<leftarrow> get pub (str ''citingPubCount'') (JInt 0);
     title_html \<leftarrow> title_html_of title doi_url;
     meta_parts \<leftarrow> meta_parts_of
        (if pub_type = str ''journal'' then str ''badge-journal'' else str ''badge-conference'')
        (if pub_type = str ''journal'' then str ''Journal'' else str ''Conference'')
        publisher citing_total;
     Some ([I @ str ''    <div class=\"pub-item\">'',
            I @ str ''        <div class=\"pub-title\">'',
            I @ str ''            '' @ title_html,
            I @ str ''        </div>'',
            I @ str ''        <div class=\"pub-authors\">'' @ authors @ str ''</div>'',
            I @ str ''        <div class=\"pub-venue\">'' @ venue @ str ''</div>'',
            I @ str ''        <div class=\"pub-meta\">'']
           @ map (\<lambda>mp. I @ str ''            '' @ mp) meta_parts
           @ [I @ str ''        </div>'',
              I @ str ''    </div>'',
              []])
   }"

definition year_of :: "json \<Rightarrow> int option option" where
  "year_of pub = do {
     year \<leftarrow> get pub (str ''publishedYear'') (JInt 0);
     if truthy year then (case year of JInt y \<Rightarrow> Some (Some y) | _ \<Rightarrow> None) else Some None
   }"

fun by_year_of :: "json list \<Rightarrow> (int \<times> json) list option" where
  "by_year_of [] = Some []"
| "by_year_of (pub # rest) = do {
     year \<leftarrow> year_of pub;
     more \<leftarrow> by_year_of rest;
     Some (case year of Some y \<Rightarrow> (y, pub) # more | None \<Rightarrow> more)
   }"

definition year_group :: "str_methods \<Rightarrow> (int \<times> json) list \<Rightarrow> int \<Rightarrow> pstr list option" where
  "year_group L by_year year = do {
     items \<leftarrow> traverse (pub_item L) (map snd (filter (\<lambda>(y, pub). y = year) by_year));
     Some ([I @ str ''<div class=\"year-group\">'',
            I @ str ''    <div class=\"year-label\">'' @ str_of_int year @ str ''</div>'',
            []]
           @ concat items
           @ [I @ str ''</div>'', []])
   }"

definition build_html :: "str_methods \<Rightarrow> json list \<Rightarrow> pstr option" where
  "build_html L publications = do {
     by_year \<leftarrow> by_year_of publications;
     groups \<leftarrow> traverse (year_group L by_year) (rev (sort (remdups (map fst by_year))));
     Some (join [10] (concat groups))
   }"

definition script_author :: json where
  "script_author = JObj [
     (str ''publishedYear'', JInt 2024),
     (str ''title'', JStr (str ''A <b> & B'')),
     (str ''authorships'', JArr [
        JObj [(str ''authorTyped'', JBool True), (str ''listPosition'', JInt 1),
              (str ''givenName'', JStr (str ''Eve'')),
              (str ''familyName'', JStr (str ''<script>alert(1)</script>''))]])]"

subsection \<open>The rendered record, in the words of the specification\<close>

text \<open>
  \<open>wf_pub\<close> collects the shape the data model gives a raw record: every field the
  renderer reads is missing or of its expected type. \<open>published_year\<close> is the year, 0
  when missing. \<open>title_block\<close> is the title position of an entry block, and
  \<open>unknown_title_html\<close> the placeholder that stands there for a record without a title:
  the text "Unknown Title", inside a link to the DOI URL when the record has one.
\<close>

definition wf_labelled :: "pstr \<Rightarrow> json \<Rightarrow> bool" where
  "wf_labelled key t = (is_obj t \<and> absent_or is_str (field t key))"

definition wf_type_fields :: "json \<Rightarrow> bool" where
  "wf_type_fields pub =
     (absent_or (wf_labelled (str ''nameEng'')) (field pub (str ''subType''))
      \<and> absent_or (wf_labelled (str ''label'')) (field pub (str ''type'')))"

definition wf_pub :: "json \<Rightarrow> bool" where
  "wf_pub pub =
     (wf_publisher_fields pub \<and> wf_venue_fields pub \<and> wf_authorships pub \<and> wf_type_fields pub
      \<and> absent_or is_int (field pub (str ''publishedYear''))
      \<and> absent_or is_int (field pub (str ''citingPubCount''))
      \<and> absent_or is_str (field pub (str ''title'')))"

definition unknown_title_html :: "json \<Rightarrow> pstr" where
  "unknown_title_html pub =
     (if doi_link pub \<noteq> []
      then str ''<a href=\"'' @ doi_link pub @ str ''\" target=\"_blank\" rel=\"noopener\">Unknown Title</a>''
      else str ''Unknown Title'')"

definition title_block :: "pstr \<Rightarrow> pstr list" where
  "title_block title_html =
     [I @ str ''        <div class=\"pub-title\">'',
      I @ str ''            '' @ title_html,
      I @ str ''        </div>'']"

definition published_year :: "json \<Rightarrow> int" where
  "published_year pub = (case field pub (str ''publishedYear'') of Some (JInt y) \<Rightarrow> y | _ \<Rightarrow> 0)"

definition dated :: "json list \<Rightarrow> (int \<times> json) list" where
  "dated pubs = map (\<lambda>p. (published_year p, p)) (filter (\<lambda>p. published_year p \<noteq> 0) pubs)"

definition untitled_example :: json where
  "untitled_example = JObj [
     (str ''publishedYear'', JInt 2023),
     (str ''citingPubCount'', JInt 3),
     (str ''identifiers'', JArr [
        JObj [(str ''source'', JObj [(str ''type'', JObj [(str ''label'', JStr (str ''DOI''))])]),
              (str ''realUrl'', JStr (str ''https://doi.org/10.1109/X''))]])]"

section \<open>Document patcher\<close>

text \<open>
  \<^verbatim>\<open>
  MARKER_START = "<!-- PUBLICATIONS_START -->"
  MARKER_END = "<!-- PUBLICATIONS_END -->"

  def update_index(publications_html):
      with open(INDEX_PATH, "r", encoding="utf-8") as f:
          content = f.read()
      pattern = re.escape(MARKER_START) + r".*?" + re.escape(MARKER_END)
      replacement = (
          MARKER_START + "\n" + publications_html + "\n        " + MARKER_END
      )
      new_content, count = re.subn(pattern, replacement, content, flags=re.DOTALL)
      if count == 0:
          print("ERROR: Could not find publication markers in index.html!")
          print(f"Looking for: {MARKER_START} ... {MARKER_END}")
          return False
      with open(INDEX_PATH, "w", encoding="utf-8") as f:
          f.write(new_content)
      print(f"Updated index.html ({count} replacement(s) made).")
      return True
  \<close>
  The pattern is the start marker, any text taken lazily (\<^verbatim>\<open>.*?\<close> under
  \<^verbatim>\<open>DOTALL\<close>), the end marker. \<open>split_at needle s\<close> cuts \<open>s\<close> at the leftmost
  occurrence of \<open>needle\<close>. A match begins at the leftmost start marker that has an end
  marker after it and ends at the first such end marker; if the leftmost start marker
  has no end marker after it, no later one has. \<^verbatim>\<open>re.subn\<close> without a \<^verbatim>\<open>count\<close>
  argument replaces every match, scanning on after each (\<open>subn_markers\<close>), and returns
  the number of replacements (\<open>count_made\<close> for the source's \<^verbatim>\<open>count\<close>, a name the
  library has taken).
\<close>

definition MARKER_START :: pstr where
  "MARKER_START = str ''<!-- PUBLICATIONS_START -->''"

definition MARKER_END :: pstr where
  "MARKER_END = str ''<!-- PUBLICATIONS_END -->''"

fun split_at :: "pstr \<Rightarrow> pstr \<Rightarrow> (pstr \<times> pstr) option" where
  "split_at needle [] = (if needle = [] then Some ([], []) else None)"
| "split_at needle (c # cs) =
     (if prefix needle (c # cs) then Some ([], drop (length needle) (c # cs))
      else map_option (\<lambda>(before, after). (c # before, after)) (split_at needle cs))"

lemma split_at_Some: "split_at needle s = Some (before, after) \<Longrightarrow> s = before @ needle @ after"
proof (induction s arbitrary: before)
  case Nil
  then show ?case by (simp split: if_splits)
next
  case (Cons c cs)
  show ?case
  proof (cases "prefix needle (c # cs)")
    case True
    then have "c # cs = needle @ drop (length needle) (c # cs)"
      by (metis append_eq_conv_conj prefix_def)
    with True Cons.prems show ?thesis by simp
  next
    case False
    with Cons.prems obtain b where "split_at needle cs = Some (b, after)" and "before = c # b"
      by auto
    with Cons.IH show ?thesis by simp
  qed
qed

text \<open>
  The replacement is a template. \<^verbatim>\<open>re\<close> compiles it before it searches: a template
  without a backslash stands for itself, any other is parsed (\<open>parse_template\<close>, after
  \<^verbatim>\<open>re._parser.parse_template\<close> of Python 3.12, for a pattern without groups; older
  versions also take a sign or blanks in a group number), and a malformed
  one raises \<^verbatim>\<open>re.error\<close> whether or not the pattern matches. Since the pattern has no
  group, the only group reference that parses is \<^verbatim>\<open>\g<0>\<close>, the whole match;
  \<^verbatim>\<open>\n\<close> and its like are control characters, three octal digits a character, a
  backslash before an ASCII letter that is no escape is an error, and before any other
  character it stays.
\<close>

datatype part = Literal pstr | Whole_Match

definition is_octal :: "nat \<Rightarrow> bool" where
  "is_octal c = (48 \<le> c \<and> c \<le> 55)"

definition is_ascii_letter :: "nat \<Rightarrow> bool" where
  "is_ascii_letter c = (is_lower c \<or> is_upper c)"

definition simple_escape :: "nat \<Rightarrow> nat option" where
  "simple_escape c =
     (if c = 97 then Some 7 else if c = 98 then Some 8 else if c = 102 then Some 12
      else if c = 110 then Some 10 else if c = 114 then Some 13 else if c = 116 then Some 9
      else if c = 118 then Some 11 else if c = 92 then Some 92 else None)"

function parse_template :: "pstr \<Rightarrow> part list option" where
  "parse_template [] = Some []"
| "parse_template (c # cs) =
     (if c \<noteq> 92 then map_option (\<lambda>ps. Literal [c] # ps) (parse_template cs)
      else case cs of
        [] \<Rightarrow> None
      | d # ds \<Rightarrow>
          if d = 103 then
            (case ds of
               [] \<Rightarrow> None
             | lt # name_on \<Rightarrow>
                 if lt \<noteq> 60 \<or> 62 \<notin> set name_on then None
                 else let name = takeWhile (\<lambda>x. x \<noteq> 62) name_on
                      in if name \<noteq> [] \<and> list_all (\<lambda>x. x = 48) name
                         then map_option (\<lambda>ps. Whole_Match # ps)
                                (parse_template (drop 1 (dropWhile (\<lambda>x. x \<noteq> 62) name_on)))
                         else None)
          else if d = 48 then
            (case ds of
               o1 # o2 # others \<Rightarrow>
                 if is_octal o1 \<and> is_octal o2
                 then map_option (\<lambda>ps. Literal [((o1 - 48) * 8 + (o2 - 48)) mod 256] # ps)
                        (parse_template others)
                 else if is_octal o1
                 then map_option (\<lambda>ps. Literal [o1 - 48] # ps) (parse_template (o2 # others))
                 else map_option (\<lambda>ps. Literal [0] # ps) (parse_template ds)
             | [o1] \<Rightarrow>
                 if is_octal o1 then Some [Literal [o1 - 48]]
                 else map_option (\<lambda>ps. Literal [0] # ps) (parse_template ds)
             | [] \<Rightarrow> Some [Literal [0]])
          else if is_digit d then
            (case ds of
               o1 # o2 # others \<Rightarrow>
                 if is_octal d \<and> is_octal o1 \<and> is_octal o2 \<and> d \<le> 51
                 then map_option (\<lambda>ps. Literal [(d - 48) * 64 + (o1 - 48) * 8 + (o2 - 48)] # ps)
                        (parse_template others)
                 else None
             | _ \<Rightarrow> None)
          else
            (case simple_escape d of
               Some e \<Rightarrow> map_option (\<lambda>ps. Literal [e] # ps) (parse_template ds)
             | None \<Rightarrow>
                 if is_ascii_letter d then None
                 else map_option (\<lambda>ps. Literal [92, d] # ps) (parse_template ds)))"
  by pat_completeness auto

termination
proof (relation "measure length")
  fix c cs d ds lt name_on
  show "(drop 1 (dropWhile (\<lambda>x. x \<noteq> 62) name_on), c # cs) \<in> measure length"
    if "cs = d # ds" "ds = lt # name_on"
    using that length_dropWhile_le [of "\<lambda>x. x \<noteq> 62" name_on] by simp
qed simp_all

definition compile_template :: "pstr \<Rightarrow> (pstr \<Rightarrow> pstr) option" where
  "compile_template repl =
     (if 92 \<notin> set repl then Some (\<lambda>whole. repl)
      else map_option
             (\<lambda>parts whole. concat (map (\<lambda>p. case p of Literal s \<Rightarrow> s | Whole_Match \<Rightarrow> whole) parts))
             (parse_template repl))"

function subn_markers :: "(pstr \<Rightarrow> pstr) \<Rightarrow> pstr \<Rightarrow> pstr \<times> nat" where
  "subn_markers expand content =
     (case split_at MARKER_START content of
        None \<Rightarrow> (content, 0)
      | Some (before, rest) \<Rightarrow>
          (case split_at MARKER_END rest of
             None \<Rightarrow> (content, 0)
           | Some (between, after) \<Rightarrow>
               (case subn_markers expand after of
                  (out, count_made) \<Rightarrow>
                    (before @ expand (MARKER_START @ between @ MARKER_END) @ out, Suc count_made))))"
  by pat_completeness auto

termination
proof (relation "measure (\<lambda>(expand, content). length content)")
  fix expand :: "pstr \<Rightarrow> pstr" and content x2 before rest x2a between after
  assume "split_at MARKER_START content = Some x2" "(before, rest) = x2"
    "split_at MARKER_END rest = Some x2a" "(between, after) = x2a"
  then have "content = before @ MARKER_START @ rest" "rest = between @ MARKER_END @ after"
    by (auto dest: split_at_Some)
  then show "((expand, after), (expand, content)) \<in> measure (\<lambda>(expand, content). length content)"
    by (simp add: MARKER_START_def str_def)
qed simp

declare subn_markers.simps [simp del]

definition re_subn :: "pstr \<Rightarrow> pstr \<Rightarrow> (pstr \<times> nat) option" where
  "re_subn repl content = map_option (\<lambda>expand. subn_markers expand content) (compile_template repl)"

text \<open>
  The world of the script: the text of \<^verbatim>\<open>index.html\<close> (a file that exists, can be
  opened and holds UTF-8) as \<^verbatim>\<open>read()\<close> gives it, the number of times the file has been opened for
  writing, the lines printed, and whether the interpreter has printed a traceback for an
  uncaught exception. \<open>update_index\<close> returns its boolean, or raises.

  Opening the file for writing empties it. \<^verbatim>\<open>f.write\<close> then encodes the whole text
  as UTF-8 before it writes any of it, and raises \<^verbatim>\<open>UnicodeEncodeError\<close> on a
  surrogate code point (\<^verbatim>\<open>json.loads\<close> gives one for a lone \<^verbatim>\<open>\ud800\<close> escape):
  the file is then left empty. A text that has been written is read back with its line
  ends translated (\<open>universal_newlines\<close>: the file is opened in text mode).
\<close>

definition utf8_encodable :: "pstr \<Rightarrow> bool" where
  "utf8_encodable s = list_all (\<lambda>c. \<not> (55296 \<le> c \<and> c \<le> 57343)) s"

fun universal_newlines :: "pstr \<Rightarrow> pstr" where
  "universal_newlines [] = []"
| "universal_newlines [c] = [if c = 13 then 10 else c]"
| "universal_newlines (c # d # ds) =
     (if c = 13 \<and> d = 10 then 10 # universal_newlines ds
      else if c = 13 then 10 # universal_newlines (d # ds)
      else c # universal_newlines (d # ds))"

record world =
  index_html :: pstr
  writes :: nat
  stdout :: "pstr list"
  traceback :: bool

datatype outcome = Returned bool | Raised

definition update_index :: "pstr \<Rightarrow> world \<Rightarrow> outcome \<times> world" where
  "update_index publications_html w =
     (let content = index_html w;
          replacement = MARKER_START @ [10] @ publications_html @ str ''\<newline>        '' @ MARKER_END
      in case re_subn replacement content of
           None \<Rightarrow> (Raised, w)
         | Some (new_content, count_made) \<Rightarrow>
             if count_made = 0
             then (Returned False,
                   w\<lparr>stdout := stdout w @
                      [str ''ERROR: Could not find publication markers in index.html!'',
                       str ''Looking for: '' @ MARKER_START @ str '' ... '' @ MARKER_END]\<rparr>)
             else if utf8_encodable new_content
             then (Returned True,
                   w\<lparr>index_html := universal_newlines new_content, writes := Suc (writes w),
                     stdout := stdout w @
                      [str ''Updated index.html ('' @ str_of_int (int count_made)
                         @ str '' replacement(s) made).'']\<rparr>)
             else (Raised, w\<lparr>index_html := [], writes := Suc (writes w)\<rparr>))"

text \<open>
  \<^verbatim>\<open>
  def main():
      print("Fetching publications from MTMT...")
      publications = fetch_publications()
      if not publications:
          print("No publications found. Exiting without changes.")
          return
      print(f"\nProcessing {len(publications)} publications...")
      publications_html = build_html(publications)
      print("\nUpdating index.html...")
      success = update_index(publications_html)
      if success:
          print("Done! Publications updated successfully.")
      else:
          print("Failed to update index.html.")
          exit(1)
  \<close>
  The network fetch is outside the model: \<open>main\<close> takes the list it returned. The
  result is the exit status of the process: 0 on return, 1 on \<^verbatim>\<open>exit(1)\<close> and on an
  uncaught exception.
\<close>

definition say :: "pstr \<Rightarrow> world \<Rightarrow> world" where
  "say line w = w\<lparr>stdout := stdout w @ [line]\<rparr>"

definition uncaught :: "world \<Rightarrow> nat \<times> world" where
  "uncaught w = (1, w\<lparr>traceback := True\<rparr>)"

definition main :: "str_methods \<Rightarrow> json list \<Rightarrow> world \<Rightarrow> nat \<times> world" where
  "main L publications w0 =
     (let w1 = say (str ''Fetching publications from MTMT...'') w0
      in if publications = []
         then (0, say (str ''No publications found. Exiting without changes.'') w1)
         else
           let w2 = say (str ''\<newline>Processing '' @ str_of_int (int (length publications))
                          @ str '' publications...'') w1
           in case build_html L publications of
                None \<Rightarrow> uncaught w2
              | Some publications_html \<Rightarrow>
                  let w3 = say (str ''\<newline>Updating index.html...'') w2
                  in case update_index publications_html w3 of
                       (Raised, w4) \<Rightarrow> uncaught w4
                     | (Returned success, w4) \<Rightarrow>
                         if success
                         then (0, say (str ''Done! Publications updated successfully.'') w4)
                         else (1, say (str ''Failed to update index.html.'') w4))"

subsection \<open>Marker pairs, in the words of the specification\<close>

text \<open>
  \<open>marker_pair_in doc\<close>: the document holds a start marker and, after it, an end marker.
  \<open>assemble segs tail\<close> is a document with one marker pair for each segment: the text
  before the pair and the text between its markers, then the tail. A segment is clean
  when its start marker is the first one from where the segment begins, and its end
  marker the first one after that start marker. \<open>patched\<close> is the same document with
  each pair, markers included, replaced.
\<close>

definition replacement_of :: "pstr \<Rightarrow> pstr" where
  "replacement_of publications_html =
     MARKER_START @ [10] @ publications_html @ str ''\<newline>        '' @ MARKER_END"

definition marker_pair_in :: "pstr \<Rightarrow> bool" where
  "marker_pair_in doc = (\<exists>a b c. doc = a @ MARKER_START @ b @ MARKER_END @ c)"

fun assemble :: "(pstr \<times> pstr) list \<Rightarrow> pstr \<Rightarrow> pstr" where
  "assemble [] tail = tail"
| "assemble ((pre, mid) # segs) tail = pre @ MARKER_START @ mid @ MARKER_END @ assemble segs tail"

fun patched :: "(pstr \<Rightarrow> pstr) \<Rightarrow> (pstr \<times> pstr) list \<Rightarrow> pstr \<Rightarrow> pstr" where
  "patched expand [] tail = tail"
| "patched expand ((pre, mid) # segs) tail =
     pre @ expand (MARKER_START @ mid @ MARKER_END) @ patched expand segs tail"

definition clean_segment :: "pstr \<times> pstr \<Rightarrow> bool" where
  "clean_segment seg = (case seg of (pre, mid) \<Rightarrow>
     \<not> contains MARKER_START (pre @ butlast MARKER_START)
     \<and> \<not> contains MARKER_END (mid @ butlast MARKER_END))"

definition start_only_page :: world where
  "start_only_page = \<lparr>index_html = str ''<html><!-- PUBLICATIONS_START --></html>'',
     writes = 0, stdout = [], traceback = False\<rparr>"

definition two_pairs_page :: world where
  "two_pairs_page = \<lparr>index_html =
       str ''A<!-- PUBLICATIONS_START -->old 1<!-- PUBLICATIONS_END -->B<!-- PUBLICATIONS_START -->old 2<!-- PUBLICATIONS_END -->C'',
     writes = 0, stdout = [], traceback = False\<rparr>"

definition two_pairs_patched :: pstr where
  "two_pairs_patched =
     str ''A<!-- PUBLICATIONS_START -->\<newline>X\<newline>        <!-- PUBLICATIONS_END -->B<!-- PUBLICATIONS_START -->\<newline>X\<newline>        <!-- PUBLICATIONS_END -->C''"

chapter \<open>Properties\<close>

section \<open>Properties of DOI extraction\<close>

lemma get_field:
  "is_obj j \<Longrightarrow> get j key dflt = Some (case field j key of Some v \<Rightarrow> v | None \<Rightarrow> dflt)"
  by (cases j) (simp_all add: field_def)

lemma field_empty [simp]: "field (JObj []) key = None"
  by (simp add: field_def)

lemma extract_doi_loop_step:
  assumes "wf_ident i"
  shows "extract_doi_loop (i # ids) =
     (if source_type_label i = JStr (str ''DOI'')
      then get i (str ''realUrl'') (JStr []) else extract_doi_loop ids)"
proof -
  define s where "s = (case field i (str ''source'') of Some v \<Rightarrow> v | None \<Rightarrow> JObj [])"
  define t where "t = (case field s (str ''type'') of Some v \<Rightarrow> v | None \<Rightarrow> JObj [])"
  have obj_i: "is_obj i"
    using assms by (simp add: wf_ident_def)
  have obj_s: "is_obj s"
    using assms by (simp add: wf_ident_def absent_or_def s_def split: option.splits)
  have obj_t: "is_obj t"
    using assms
    by (auto simp: wf_ident_def absent_or_def s_def t_def split: option.splits)
  have g1: "get i (str ''source'') (JObj []) = Some s"
    by (simp add: get_field [OF obj_i] s_def)
  have g2: "get s (str ''type'') (JObj []) = Some t"
    by (simp add: get_field [OF obj_s] t_def)
  have "get t (str ''label'') JNull
      = Some (case field t (str ''label'') of Some v \<Rightarrow> v | None \<Rightarrow> JNull)"
    by (rule get_field [OF obj_t])
  also have "(case field t (str ''label'') of Some v \<Rightarrow> v | None \<Rightarrow> JNull) = source_type_label i"
    by (simp add: source_type_label_def s_def t_def split: option.splits)
  finally have g3: "get t (str ''label'') JNull = Some (source_type_label i)" .
  show ?thesis
    by (simp add: g1 g2 g3)
qed

lemma is_doi_label: "is_doi i \<longleftrightarrow> source_type_label i = JStr (str ''DOI'')"
  by (auto simp: is_doi_def source_type_label_def split: option.splits)

lemma extract_doi_loop_find:
  "list_all wf_ident ids \<Longrightarrow>
   extract_doi_loop ids = Some (case find is_doi ids of None \<Rightarrow> JStr [] | Some i \<Rightarrow> real_url i)"
proof (induction ids)
  case Nil
  show ?case by simp
next
  case (Cons i ids)
  then have wf: "wf_ident i" and rest: "list_all wf_ident ids"
    by simp_all
  have obj: "is_obj i"
    using wf by (simp add: wf_ident_def)
  show ?case
    using Cons.IH [OF rest]
    by (simp add: extract_doi_loop_step [OF wf] is_doi_label get_field [OF obj] real_url_def
        del: extract_doi_loop.simps)
qed

lemma extract_doi_find:
  assumes "has_identifiers pub ids"
  shows "extract_doi pub = Some (case find is_doi ids of None \<Rightarrow> JStr [] | Some i \<Rightarrow> real_url i)"
proof -
  from assms have obj: "is_obj pub" and wf: "list_all wf_ident ids"
    and ids: "(case field pub (str ''identifiers'') of None \<Rightarrow> ids = [] | Some v \<Rightarrow> v = JArr ids)"
    by (simp_all add: has_identifiers_def)
  have "get pub (str ''identifiers'') (JArr []) = Some (JArr ids)"
    using ids by (simp add: get_field [OF obj] split: option.splits)
  then show ?thesis
    by (simp add: extract_doi_def extract_doi_loop_find [OF wf])
qed

text \<open>
  Claim C8. For a record whose identifiers are well formed, DOI extraction returns the
  resolvable URL of the first identifier whose source-type label equals "DOI", as it
  stands in the record, and the empty string (not an error) when no identifier has
  that label.
\<close>

theorem extract_doi_first_DOI:
  assumes "has_identifiers pub ids"
  shows "extract_doi pub = Some (case find is_doi ids of None \<Rightarrow> JStr [] | Some i \<Rightarrow> real_url i)"
  using assms by (rule extract_doi_find)

theorem extract_doi_first_DOI_witness:
  "has_identifiers doi_example (case field doi_example (str ''identifiers'') of Some (JArr ids) \<Rightarrow> ids)
   \<and> extract_doi doi_example = Some (JStr (str ''https://doi.org/10.1109/A''))"
  using extract_doi_first_DOI [of doi_example
      "case field doi_example (str ''identifiers'') of Some (JArr ids) \<Rightarrow> ids"]
  by (simp add: doi_example_def has_identifiers_def field_def wf_ident_def absent_or_def
      is_doi_def real_url_def str_def)

section \<open>Properties of publisher inference\<close>

lemma str_Nil_iff [simp]: "str s = [] \<longleftrightarrow> s = []"
  by (simp add: str_def)

lemma get_publisher_book_rule:
  assumes obj: "is_obj pub" and wf: "absent_or wf_book (field pub (str ''book''))"
  shows "get pub (str ''book'') (JObj []) \<bind> get_publisher_book
         = Some (if contains (str ''Piscataway'') (city_label pub) then Some (str ''IEEE'') else None)"
proof (cases "field pub (str ''book'')")
  case None
  then show ?thesis
    by (simp add: get_field [OF obj] get_publisher_book_def city_label_def)
next
  case (Some b)
  with wf have b: "is_obj b" and pa: "absent_or wf_published_at (field b (str ''publishedAt''))"
    by (simp_all add: absent_or_def wf_book_def)
  have g: "get pub (str ''book'') (JObj []) = Some b"
    using Some by (simp add: get_field [OF obj])
  show ?thesis
  proof (cases "field b (str ''publishedAt'')")
    case None
    then show ?thesis
      using Some by (simp add: g get_field [OF b] get_publisher_book_def city_label_def)
  next
    case pas: (Some v)
    with pa obtain ps where v: "v = JArr ps" and ps: "list_all wf_place ps"
      by (auto simp: absent_or_def wf_published_at_def split: json.splits)
    show ?thesis
    proof (cases ps)
      case Nil
      then show ?thesis
        using Some pas v
        by (simp add: g get_field [OF b] get_publisher_book_def city_label_def)
    next
      case (Cons first more)
      with ps have f: "is_obj first" and l: "absent_or is_str (field first (str ''label''))"
        and po: "absent_or is_obj (field first (str ''partOf''))"
        by (simp_all add: wf_place_def)
      define part_of where "part_of = (case field first (str ''partOf'') of Some x \<Rightarrow> x | None \<Rightarrow> JObj [])"
      have po_obj: "is_obj part_of"
        using po by (simp add: part_of_def absent_or_def split: option.splits)
      have g_po: "get first (str ''partOf'') (JObj []) = Some part_of"
        by (simp add: get_field [OF f] part_of_def)
      obtain country where g_c: "get part_of (str ''label'') (JStr []) = Some country"
        by (simp add: get_field [OF po_obj])
      obtain lab where g_l: "get first (str ''label'') (JStr []) = Some (JStr lab)"
        and lab: "lab = (case field first (str ''label'') of Some (JStr l) \<Rightarrow> l | _ \<Rightarrow> [])"
        using l by (cases "field first (str ''label'')")
          (auto simp: get_field [OF f] absent_or_def elim: is_str.elims)
      have tb: "truthy b \<or> \<not> truthy b" by simp
      have "get_publisher_book b
          = Some (if contains (str ''Piscataway'') lab then Some (str ''IEEE'') else None)"
      proof (cases "truthy b")
        case True
        then show ?thesis
          using pas v Cons
          by (simp add: get_publisher_book_def get_field [OF b] g_l g_po g_c)
      next
        case False
        then have "b = JObj []" using b by (cases b) simp_all
        then show ?thesis using pas by simp
      qed
      then show ?thesis
        using Some pas v Cons by (simp add: g city_label_def lab)
    qed
  qed
qed

lemma get_real_url:
  assumes "is_obj i" and "wf_url i"
  shows "get i (str ''realUrl'') (JStr []) = Some (JStr (url_of i))"
  using assms
  by (cases "field i (str ''realUrl'')")
     (auto simp: get_field wf_url_def absent_or_def url_of_def real_url_def elim: is_str.elims)

lemma get_publisher_idents_rule:
  "list_all wf_ident ids \<Longrightarrow> list_all wf_url ids \<Longrightarrow>
   get_publisher_idents ids =
     Some (case find url_hit ids of
             Some i \<Rightarrow> Some (if contains (str ''ieeexplore'') (url_of i) then str ''IEEE'' else str ''Springer'')
           | None \<Rightarrow> None)"
proof (induction ids)
  case Nil
  show ?case by simp
next
  case (Cons i ids)
  then have "is_obj i" and "wf_url i"
    by (simp_all add: wf_ident_def)
  then have g: "get i (str ''realUrl'') (JStr []) = Some (JStr (url_of i))"
    by (rule get_real_url)
  show ?case
    using Cons by (simp add: g url_hit_def)
qed

lemma real_url_is_str: "wf_url i \<Longrightarrow> real_url i = JStr (url_of i)"
  by (cases "field i (str ''realUrl'')")
     (auto simp: wf_url_def absent_or_def url_of_def real_url_def elim: is_str.elims)

lemma extract_doi_url:
  assumes "has_identifiers pub (identifiers_of pub)" and "list_all wf_url (identifiers_of pub)"
  shows "extract_doi pub = Some (JStr (doi_link pub))"
proof (cases "find is_doi (identifiers_of pub)")
  case None
  then show ?thesis
    by (simp add: extract_doi_find [OF assms(1)] doi_link_def)
next
  case (Some i)
  then have "i \<in> set (identifiers_of pub)"
    by (auto simp: find_Some_iff)
  with assms(2) have "wf_url i"
    by (simp add: list_all_iff)
  then show ?thesis
    using Some by (simp add: extract_doi_find [OF assms(1)] doi_link_def real_url_is_str)
qed

lemma get_publisher_doi_rule:
  "get_publisher_doi (JStr u) =
     Some (if contains (str ''10.1109'') u \<or> contains (str ''10.23919'') u then str ''IEEE''
           else if contains (str ''10.1007'') u then str ''Springer'' else [])"
  by (simp add: get_publisher_doi_def)

lemma get_identifiers:
  assumes "has_identifiers pub ids"
  shows "get pub (str ''identifiers'') (JArr []) = Some (JArr ids)"
  using assms by (auto simp: has_identifiers_def get_field split: option.splits)

lemma get_publisher_rules:
  assumes "wf_publisher_fields pub"
  shows "get_publisher pub = Some (publisher_rules pub)"
proof -
  from assms have ids: "has_identifiers pub (identifiers_of pub)"
    and urls: "list_all wf_url (identifiers_of pub)"
    and book: "absent_or wf_book (field pub (str ''book''))"
    by (simp_all add: wf_publisher_fields_def)
  from ids have obj: "is_obj pub" and wf: "list_all wf_ident (identifiers_of pub)"
    by (simp_all add: has_identifiers_def)
  have stage1: "get pub (str ''book'') (JObj []) \<bind> get_publisher_book
      = Some (if contains (str ''Piscataway'') (city_label pub) then Some (str ''IEEE'') else None)"
    by (rule get_publisher_book_rule [OF obj book])
  have "get_publisher pub =
      get pub (str ''book'') (JObj []) \<bind> get_publisher_book \<bind>
        (\<lambda>from_book. case from_book of
           Some p \<Rightarrow> Some p
         | None \<Rightarrow> do {
             identifiers \<leftarrow> get pub (str ''identifiers'') (JArr []);
             idents \<leftarrow> iter identifiers;
             from_idents \<leftarrow> get_publisher_idents idents;
             case from_idents of
               Some p \<Rightarrow> Some p
             | None \<Rightarrow> do { doi \<leftarrow> extract_doi pub; get_publisher_doi doi }
           })"
    by (simp add: get_publisher_def)
  then show ?thesis
    by (simp add: stage1 get_identifiers [OF ids] get_publisher_idents_rule [OF wf urls]
        extract_doi_url [OF ids urls] get_publisher_doi_rule publisher_rules_def
        split: option.splits)
qed

text \<open>
  The order of the checks. For a record whose book entry and identifiers have the shape
  of the data model, publisher inference applies its checks in this order, the first
  that applies giving the result: the city label of the book's first "published at"
  entry contains "Piscataway": IEEE; else the first identifier whose URL contains
  "ieeexplore" or "springer" decides, IEEE if it contains "ieeexplore", Springer
  otherwise; else the DOI URL contains "10.1109" or "10.23919" anywhere: IEEE; else it
  contains "10.1007": Springer; else the empty string. The DOI tests are substring tests
  on the whole URL.
\<close>

theorem get_publisher_rule_order:
  assumes "wf_publisher_fields pub"
  shows "get_publisher pub = Some (publisher_rules pub)"
  using assms by (rule get_publisher_rules)

lemmas publisher_eval =
  has_identifiers_def identifiers_of_def field_def wf_ident_def absent_or_def wf_url_def wf_book_def
  wf_published_at_def wf_place_def wf_publisher_fields_def

theorem get_publisher_rule_order_witness:
  "wf_publisher_fields publisher_example \<and> get_publisher publisher_example = Some (str ''IEEE'')"
  using get_publisher_rule_order [of publisher_example]
  by (simp add: publisher_example_def publisher_eval publisher_rules_def city_label_def str_def)

text \<open>
  Claim C7 fails on the code. The claim, like the comment above the last stage
  (\<^verbatim>\<open># Check DOI prefix\<close>), speaks of the DOI prefix, and the code tests for a
  substring anywhere in the DOI URL: a record that no earlier check matches, whose DOI
  has the prefix 10.36244 and a suffix that happens to contain "10.1109", is classified
  IEEE instead of getting the empty publisher.
\<close>

theorem get_publisher_suppressed_prefix_gives_IEEE:
  "wf_publisher_fields suppressed_example
   \<and> has_doi_prefix (str ''10.36244'') (doi_link suppressed_example)
   \<and> \<not> contains (str ''Piscataway'') (city_label suppressed_example)
   \<and> find url_hit (identifiers_of suppressed_example) = None
   \<and> get_publisher suppressed_example = Some (str ''IEEE'')"
  by (simp add: suppressed_example_def publisher_eval has_doi_prefix_def doi_link_def
      city_label_def url_hit_def url_of_def real_url_def is_doi_def
      get_publisher_def get_publisher_book_def get_publisher_doi_def extract_doi_def str_def)

section \<open>Properties of journal-title cleanup\<close>

lemmas clean_eval = clean_journal_title_def py_strip_def ascii_methods_def ascii_upper_def
  ascii_title_def upper_char_def lower_char_def is_lower_def is_upper_def is_digit_def is_space_def
  match_ws_issn_def match_issn_more.simps Let_def

lemma sub_issn_no_match: "\<not> has_issn L t \<Longrightarrow> sub_issn L t = t"
  by (induction t) auto

lemma dropWhile_hd: "dropWhile P xs \<noteq> [] \<Longrightarrow> \<not> P (hd (dropWhile P xs))"
  by (metis hd_dropWhile)

lemma last_dropWhile: "dropWhile P xs \<noteq> [] \<Longrightarrow> last (dropWhile P xs) = last xs"
  by (induction xs) (auto split: if_splits)

lemma stripped_py_strip: "stripped (py_strip s)"
proof -
  let ?a = "dropWhile is_space s"
  let ?b = "dropWhile is_space (rev ?a)"
  have eq: "py_strip s = rev ?b"
    by (simp add: py_strip_def)
  show ?thesis
  proof (cases "?b = []")
    case True
    show ?thesis unfolding eq True by (simp add: stripped_def)
  next
    case False
    then have a: "?a \<noteq> []" by (metis dropWhile.simps(1) rev.simps(1))
    have h: "\<not> is_space (hd ?b)" using False by (rule dropWhile_hd)
    have "last ?b = last (rev ?a)" using False by (rule last_dropWhile)
    also have "\<dots> = hd ?a" using a by (simp add: last_rev)
    finally have l: "\<not> is_space (last ?b)" using dropWhile_hd [OF a] by simp
    show ?thesis
      unfolding eq using h l False by (simp add: stripped_def hd_rev last_rev)
  qed
qed

lemma py_strip_stripped: "stripped s \<Longrightarrow> py_strip s = s"
proof (cases "s = []")
  case True
  then show ?thesis by (simp add: py_strip_def)
next
  case False
  assume "stripped s"
  with False have h: "\<not> is_space (hd s)" and l: "\<not> is_space (last s)"
    by (simp_all add: stripped_def)
  have 1: "dropWhile is_space s = s"
    using False h by (cases s) simp_all
  have 2: "dropWhile is_space (rev s) = rev s"
    using False l by (cases "rev s") (simp_all add: hd_rev [symmetric])
  show ?thesis by (simp add: py_strip_def 1 2)
qed

lemma is_space_upper_char [simp]: "is_space (upper_char c) = is_space c"
  by (auto simp: is_space_def upper_char_def is_lower_def)

lemma is_space_lower_char [simp]: "is_space (lower_char c) = is_space c"
  by (auto simp: is_space_def lower_char_def is_upper_def)

lemma title_from_Nil [simp]: "title_from b s = [] \<longleftrightarrow> s = []"
  by (cases s) simp_all

lemma hd_title_from: "s \<noteq> [] \<Longrightarrow> is_space (hd (title_from b s)) = is_space (hd s)"
  by (cases s) simp_all

lemma last_title_from: "s \<noteq> [] \<Longrightarrow> is_space (last (title_from b s)) = is_space (last s)"
  by (induction s arbitrary: b) (auto)

lemma stripped_title: "stripped s \<Longrightarrow> stripped (ascii_title s)"
  by (auto simp: stripped_def ascii_title_def hd_title_from last_title_from)

lemma cased_upper_char [simp]:
  "(is_lower (upper_char c) \<or> is_upper (upper_char c)) = (is_lower c \<or> is_upper c)"
  by (auto simp: upper_char_def is_lower_def is_upper_def)

lemma cased_lower_char [simp]:
  "(is_lower (lower_char c) \<or> is_upper (lower_char c)) = (is_lower c \<or> is_upper c)"
  by (auto simp: lower_char_def is_lower_def is_upper_def)

lemma upper_upper [simp]: "upper_char (upper_char c) = upper_char c"
  by (auto simp: upper_char_def is_lower_def)

lemma lower_lower [simp]: "lower_char (lower_char c) = lower_char c"
  by (auto simp: lower_char_def is_upper_def)

lemma title_from_idem: "title_from b (title_from b s) = title_from b s"
  by (induction s arbitrary: b) auto

lemma ascii_title_idem: "ascii_title (ascii_title s) = ascii_title s"
  by (simp add: ascii_title_def title_from_idem)

lemma length_title_from [simp]: "length (title_from b s) = length s"
  by (induction s arbitrary: b) auto

lemma ascii_agree_ascii_methods: "ascii_agree ascii_methods"
  by (simp add: ascii_agree_def ascii_methods_def)

lemma title_settles_ascii_methods: "title_settles ascii_methods"
  by (simp add: title_settles_def ascii_methods_def stripped_title ascii_title_idem)

lemma clean_journal_title_fixed:
  assumes "\<not> has_issn L t" and "stripped t"
    and "str_title L t = t \<or> \<not> (t = str_upper L t \<and> length t > 5)"
  shows "clean_journal_title L t = t"
  using assms by (auto simp: clean_journal_title_def sub_issn_no_match py_strip_stripped)

lemma clean_journal_title_idem:
  assumes "title_settles L" and "\<not> has_issn L (clean_journal_title L s)"
  shows "clean_journal_title L (clean_journal_title L s) = clean_journal_title L s"
proof -
  let ?t = "py_strip (sub_issn L s)"
  have st: "stripped ?t" by (rule stripped_py_strip)
  from assms(1) have keeps: "\<And>t. stripped t \<Longrightarrow> stripped (str_title L t)"
    and settles: "\<And>t. str_upper L t = t \<Longrightarrow> str_upper L (str_title L t) = str_title L t
        \<Longrightarrow> str_title L (str_title L t) = str_title L t"
    by (simp_all add: title_settles_def)
  show ?thesis
  proof (cases "?t = str_upper L ?t \<and> length ?t > 5")
    case True
    then have c: "clean_journal_title L s = str_title L ?t"
      by (simp add: clean_journal_title_def)
    have up: "str_upper L ?t = ?t"
      using True by simp
    have "str_title L (str_title L ?t) = str_title L ?t"
      if "str_title L ?t = str_upper L (str_title L ?t)"
      using settles [OF up] that by simp
    then have "str_title L (str_title L ?t) = str_title L ?t
        \<or> \<not> (str_title L ?t = str_upper L (str_title L ?t) \<and> length (str_title L ?t) > 5)"
      by blast
    with assms(2) keeps [OF st] show ?thesis
      unfolding c by (intro clean_journal_title_fixed)
  next
    case False
    then have c: "clean_journal_title L s = ?t"
      by (auto simp: clean_journal_title_def)
    show ?thesis
      unfolding c
      by (rule clean_journal_title_fixed) (use assms(2) c st False in auto)
  qed
qed

lemma clean_journal_title_example:
  assumes "ascii_agree L"
  shows "clean_journal_title L (str ''ACTA POLYTECHNICA HUNGARICA 1785-8860'')
     = str ''Acta Polytechnica Hungarica''"
proof -
  from assms have d: "\<And>c. c < 128 \<Longrightarrow> re_digit L c = is_digit c"
    and u: "\<And>s. ascii s \<Longrightarrow> str_upper L s = ascii_upper s"
    and t: "\<And>s. ascii s \<Longrightarrow> str_title L s = ascii_title s"
    by (simp_all add: ascii_agree_def)
  show ?thesis
    by (simp add: clean_journal_title_def py_strip_def ascii_upper_def ascii_title_def
        upper_char_def lower_char_def is_lower_def is_upper_def is_digit_def is_space_def
        match_ws_issn_def match_issn_more.simps Let_def d u t ascii_def str_def)
qed

text \<open>
  A title with accented letters: "HIRADASTECHNIKA 0018-2028" with an acute accent on
  the I and on both of the first two A (code points 205 and 193). The ISSN is dropped and
  what is left is compared with its upper-case form and title-cased by the library,
  whatever its tables give for the accented letters.
\<close>

lemma clean_journal_title_accented:
  assumes "ascii_agree L"
  shows "clean_journal_title L
           (str ''H'' @ [205] @ str ''RAD'' @ [193] @ str ''STECHNIKA 0018-2028'')
     = (if str ''H'' @ [205] @ str ''RAD'' @ [193] @ str ''STECHNIKA''
            = str_upper L (str ''H'' @ [205] @ str ''RAD'' @ [193] @ str ''STECHNIKA'')
        then str_title L (str ''H'' @ [205] @ str ''RAD'' @ [193] @ str ''STECHNIKA'')
        else str ''H'' @ [205] @ str ''RAD'' @ [193] @ str ''STECHNIKA'')"
proof -
  from assms have d: "\<And>c. c < 128 \<Longrightarrow> re_digit L c = is_digit c"
    by (simp add: ascii_agree_def)
  show ?thesis
    by (simp add: clean_journal_title_def py_strip_def is_digit_def is_space_def
        match_ws_issn_def match_issn_more.simps Let_def d str_def)
qed

text \<open>
  Claim C6, as amended. For every string whose cleaned form holds no ISSN-shaped token
  after whitespace, cleaning the cleaned form again changes nothing; and the input
  "ACTA POLYTECHNICA HUNGARICA 1785-8860" is cleaned to "Acta Polytechnica Hungarica".
  This holds for any string methods that do on ASCII text what Python's do and whose
  title-casing settles (\<open>ascii_agree\<close>, \<open>title_settles\<close>).
\<close>

theorem clean_journal_title_idempotent:
  assumes "ascii_agree L" and "title_settles L"
  shows "(\<not> has_issn L (clean_journal_title L s)
            \<longrightarrow> clean_journal_title L (clean_journal_title L s) = clean_journal_title L s)
     \<and> clean_journal_title L (str ''ACTA POLYTECHNICA HUNGARICA 1785-8860'')
         = str ''Acta Polytechnica Hungarica''"
  using clean_journal_title_idem [OF assms(2), of s] clean_journal_title_example [OF assms(1)]
  by simp

theorem clean_journal_title_idempotent_witness:
  "ascii_agree ascii_methods \<and> title_settles ascii_methods
   \<and> \<not> has_issn ascii_methods
         (clean_journal_title ascii_methods (str ''ACTA POLYTECHNICA HUNGARICA 1785-8860''))
   \<and> clean_journal_title ascii_methods
        (clean_journal_title ascii_methods (str ''ACTA POLYTECHNICA HUNGARICA 1785-8860''))
       = clean_journal_title ascii_methods (str ''ACTA POLYTECHNICA HUNGARICA 1785-8860'')"
proof -
  have no: "\<not> has_issn ascii_methods
         (clean_journal_title ascii_methods (str ''ACTA POLYTECHNICA HUNGARICA 1785-8860''))"
    by (simp add: clean_journal_title_example [OF ascii_agree_ascii_methods])
       (simp add: match_ws_issn_def is_space_def str_def)
  have "(\<not> has_issn ascii_methods
            (clean_journal_title ascii_methods (str ''ACTA POLYTECHNICA HUNGARICA 1785-8860''))
          \<longrightarrow> clean_journal_title ascii_methods
                (clean_journal_title ascii_methods (str ''ACTA POLYTECHNICA HUNGARICA 1785-8860''))
              = clean_journal_title ascii_methods (str ''ACTA POLYTECHNICA HUNGARICA 1785-8860''))
     \<and> clean_journal_title ascii_methods (str ''ACTA POLYTECHNICA HUNGARICA 1785-8860'')
         = str ''Acta Polytechnica Hungarica''"
    by (rule clean_journal_title_idempotent
        [OF ascii_agree_ascii_methods title_settles_ascii_methods])
  with no ascii_agree_ascii_methods title_settles_ascii_methods show ?thesis
    by blast
qed

text \<open>
  Removing one token can join its neighbours into a new one: the first cleaning of
  "a 1234 1111-1111-567X" gives "a 1234-567X", the second gives "a".
\<close>

theorem clean_journal_title_not_idempotent_counterexample:
  "clean_journal_title ascii_methods (clean_journal_title ascii_methods (str ''a 1234 1111-1111-567X''))
     \<noteq> clean_journal_title ascii_methods (str ''a 1234 1111-1111-567X'')"
  by (simp add: clean_eval str_def)

section \<open>Properties of venue extraction\<close>

lemmas venue_eval = extract_venue_def clean_eval str_of_int_def digits_of.simps

lemma extract_venue_sensors: "extract_venue ascii_methods sensors = Some (JStr (str ''Sensors, vol. 21, no. 4, pp. 100'' @ [8211] @ str ''110''))"
  by (simp add: sensors_def venue_eval str_def)

lemma get_fld: "is_obj j \<Longrightarrow> get j key (JStr []) = Some (fld j key)"
  by (simp add: get_field fld_def)

lemma get_entry: "is_obj j \<Longrightarrow> get j key (JObj []) = Some (entry j key)"
  by (simp add: get_field entry_def)

lemma is_text_fld: "absent_or is_text (field j key) \<Longrightarrow> is_text (fld j key)"
  by (simp add: absent_or_def fld_def split: option.splits)

lemma is_text_format: "is_text v \<Longrightarrow> py_format v = Some (fmt v)"
  by (cases v) (simp_all add: fmt_def)

lemma is_text_eq: "is_text a \<Longrightarrow> is_text b \<Longrightarrow> py_eq a b = Some (a = b)"
  by (cases a; cases b) simp_all

lemma venue_seed:
  assumes "is_obj pub" and "absent_or wf_titled (field pub (str ''book''))"
  shows "(get pub (str ''book'') (JObj []) \<bind>
           (\<lambda>book. if truthy book then get book (str ''title'') (JStr []) else Some (JStr [])))
         = Some (JStr (book_title pub))"
proof -
  let ?b = "entry pub (str ''book'')"
  have b: "is_obj ?b" and t: "absent_or is_str (field ?b (str ''title''))"
    using assms(2) by (auto simp: entry_def absent_or_def wf_titled_def split: option.splits)
  have "fld ?b (str ''title'') = JStr (the_str (fld ?b (str ''title'')))"
    using t by (auto simp: fld_def absent_or_def split: option.splits elim: is_str.elims)
  then show ?thesis
    by (simp add: get_entry [OF assms(1)] get_fld [OF b] book_title_def)
qed

lemma venue_journal:
  assumes "is_obj pub" and "absent_or wf_journal (field pub (str ''journal''))"
  shows "(get pub (str ''journal'') (JObj []) \<bind>
           (\<lambda>journal. if truthy journal then do {
                  label \<leftarrow> get journal (str ''label'') (JStr (book_title pub));
                  raw \<leftarrow> get journal (str ''title'') label;
                  raw_title \<leftarrow> re_sub_arg raw;
                  Some (JStr (clean_journal_title L raw_title))
                } else Some (JStr (book_title pub))))
         = Some (JStr (venue_base L pub))"
proof -
  let ?j = "entry pub (str ''journal'')"
  have j: "is_obj ?j" and t: "absent_or is_str (field ?j (str ''title''))"
    and l: "absent_or is_str (field ?j (str ''label''))"
    using assms(2) by (auto simp: entry_def absent_or_def wf_journal_def split: option.splits)
  show ?thesis
    using t l
    by (auto simp: get_entry [OF assms(1)] get_field [OF j] venue_base_def journal_source_def
        absent_or_def split: option.splits elim!: is_str.elims)
qed

lemma extract_venue_shape:
  assumes "wf_venue_fields pub"
  shows "extract_venue L pub = Some (JStr (venue_base L pub @ locators pub))"
proof -
  from assms have obj: "is_obj pub"
    and book: "absent_or wf_titled (field pub (str ''book''))"
    and journal: "absent_or wf_journal (field pub (str ''journal''))"
    and vol: "is_text (fld pub (str ''volume''))"
    and iss: "is_text (fld pub (str ''issue''))"
    and fp: "is_text (fld pub (str ''firstPage''))"
    and lp: "is_text (fld pub (str ''lastPage''))"
    by (simp_all add: wf_venue_fields_def is_text_fld)
  have seed: "get pub (str ''book'') (JObj []) \<bind>
           (\<lambda>book. (if truthy book then get book (str ''title'') (JStr []) else Some (JStr [])) \<bind> f)
         = f (JStr (book_title pub))" for f :: "json \<Rightarrow> json option"
    using venue_seed [OF obj book]
    by (cases "get pub (str ''book'') (JObj [])") (auto split: if_splits)
  have jour: "get pub (str ''journal'') (JObj []) \<bind>
           (\<lambda>journal. (if truthy journal then do {
                  label \<leftarrow> get journal (str ''label'') (JStr (book_title pub));
                  raw \<leftarrow> get journal (str ''title'') label;
                  raw_title \<leftarrow> re_sub_arg raw;
                  Some (JStr (clean_journal_title L raw_title))
                } else Some (JStr (book_title pub))) \<bind> f)
         = f (JStr (venue_base L pub))" for f :: "json \<Rightarrow> json option"
    using venue_journal [OF obj journal]
    by (cases "get pub (str ''journal'') (JObj [])") (auto split: if_splits)
  show ?thesis
    unfolding extract_venue_def seed jour
    by (simp add: get_fld [OF obj] is_text_format [OF vol] is_text_format [OF iss]
        is_text_format [OF fp] is_text_format [OF lp] is_text_eq [OF fp lp] locators_def)
qed

lemmas venue_spec_eval = wf_venue_fields_def wf_titled_def wf_journal_def absent_or_def field_def
  fld_def entry_def book_title_def journal_source_def locators_def venue_base_def fmt_def

text \<open>
  Claim C4, as amended. For a record of the data model's shape, the venue is the base
  followed by the locators, and journal-title cleanup is applied exactly when the record
  has a non-empty journal entry: to the text the journal branch picks, which is the
  journal's title, else its label, else the book-seeded venue. A book title is embedded
  without cleanup only when the record has no journal entry.
\<close>

theorem extract_venue_cleanup_scope:
  assumes "wf_venue_fields pub"
  shows "extract_venue L pub =
     Some (JStr ((if truthy (entry pub (str ''journal''))
                  then clean_journal_title L (journal_source pub)
                  else book_title pub) @ locators pub))"
  using extract_venue_shape [OF assms] by (simp add: venue_base_def)

theorem extract_venue_cleanup_scope_witness:
  "wf_venue_fields book_only
   \<and> extract_venue ascii_methods book_only = Some (JStr (str ''PROCEEDINGS OF X 1234-5678''))"
  using extract_venue_cleanup_scope [of book_only]
  by (simp add: book_only_def venue_spec_eval str_def)

text \<open>
  A record with a book entry and a journal entry that has neither title nor label: the
  venue falls back to the book title, and the book title is cleaned.
\<close>

theorem extract_venue_cleans_book_title_counterexample:
  "wf_venue_fields book_and_bare_journal
   \<and> field (entry book_and_bare_journal (str ''journal'')) (str ''title'') = None
   \<and> field (entry book_and_bare_journal (str ''journal'')) (str ''label'') = None
   \<and> book_title book_and_bare_journal = str ''PROCEEDINGS OF X 1234-5678''
   \<and> extract_venue ascii_methods book_and_bare_journal = Some (JStr (str ''Proceedings Of X''))"
  by (simp add: book_and_bare_journal_def venue_spec_eval venue_eval str_def)

text \<open>
  Claim C10, as amended. For a record of the data model's shape with neither a book
  entry nor a journal entry, the venue is the locator suffix alone: it begins with ", "
  when the volume is non-empty, or the issue is, or both the first and the last page
  are; otherwise it is empty.
\<close>

theorem extract_venue_locators_only:
  assumes "wf_venue_fields pub"
    and "\<not> truthy (entry pub (str ''book''))" and "\<not> truthy (entry pub (str ''journal''))"
  shows "extract_venue L pub = Some (JStr (locators pub))
     \<and> (if truthy (fld pub (str ''volume'')) \<or> truthy (fld pub (str ''issue''))
            \<or> (truthy (fld pub (str ''firstPage'')) \<and> truthy (fld pub (str ''lastPage'')))
         then prefix (str '', '') (locators pub)
         else locators pub = [])"
proof -
  have "venue_base L pub = []"
    using assms(2,3) by (simp add: venue_base_def book_title_def)
  then have "extract_venue L pub = Some (JStr (locators pub))"
    using extract_venue_shape [OF assms(1)] by simp
  moreover have "prefix (str '', '') (str '', vol. '' @ x)"
    and "prefix (str '', '') (str '', no. '' @ x)"
    and "prefix (str '', '') (str '', pp. '' @ x)"
    and "prefix (str '', '') (str '', p. '' @ x)" for x
    by (simp_all add: str_def)
  ultimately show ?thesis
    by (simp add: locators_def)
qed

theorem extract_venue_locators_only_witness:
  "wf_venue_fields volume_only
   \<and> \<not> truthy (entry volume_only (str ''book'')) \<and> \<not> truthy (entry volume_only (str ''journal''))
   \<and> extract_venue ascii_methods volume_only = Some (JStr (str '', vol. 7''))"
  using extract_venue_locators_only [of volume_only]
  by (simp add: volume_only_def venue_spec_eval str_def)

text \<open>
  A record whose only locator is a first page: a page field is non-empty, and the venue
  is empty.
\<close>

theorem extract_venue_single_page_counterexample:
  "wf_venue_fields first_page_only
   \<and> truthy (fld first_page_only (str ''firstPage''))
   \<and> \<not> truthy (entry first_page_only (str ''book''))
   \<and> \<not> truthy (entry first_page_only (str ''journal''))
   \<and> extract_venue ascii_methods first_page_only = Some (JStr [])"
  by (simp add: first_page_only_def venue_spec_eval venue_eval str_def)

section \<open>Properties of the author string\<close>

lemmas authors_eval = extract_authors_def sorted_by_position_def position_key_def author_part_def
  AUTHOR_MTID_def py_strip_def is_space_def

lemma extract_authors_example: "extract_authors authors_example = Some (str ''Solo, <strong>M. Balogh</strong>, C. Late'')"
  by (simp add: authors_example_def authors_eval str_def)

lemma extract_authors_late_position: "extract_authors late_position_example = Some (str ''Unpositioned, Positioned'')"
  by (simp add: late_position_example_def authors_eval str_def)

lemma counted_filter: "list_all is_obj as \<Longrightarrow> counted as = Some (filter is_counted as)"
  by (induction as) (auto simp: get_field is_counted_def)

lemma position_key_wf: "wf_authorship a \<Longrightarrow> position_key a = Some (sort_position a)"
  by (auto simp: wf_authorship_def position_key_def get_field sort_position_def list_position_def
      absent_or_def split: option.splits elim!: is_int.elims)

lemma keyed_wf:
  "list_all wf_authorship as \<Longrightarrow> keyed as = Some (map (\<lambda>a. (sort_position a, a)) as)"
  by (induction as) (auto simp: position_key_wf)

lemma insort_key_paired:
  "\<forall>p \<in> set ps. fst p = f (snd p) \<Longrightarrow>
   map snd (insort_key fst (f a, a) ps) = insort_key f a (map snd ps)"
  by (induction ps) auto

lemma sort_key_paired:
  "map snd (sort_key fst (map (\<lambda>a. (f a, a)) xs)) = sort_key f xs"
proof (induction xs)
  case Nil
  show ?case by simp
next
  case (Cons a xs)
  have "\<forall>p \<in> set (sort_key fst (map (\<lambda>a. (f a, a)) xs)). fst p = f (snd p)"
    by auto
  then show ?case
    using Cons by (simp add: insort_key_paired)
qed

lemma sorted_by_position_wf:
  "list_all wf_authorship as \<Longrightarrow> sorted_by_position as = Some (sort_key sort_position as)"
  by (simp add: sorted_by_position_def keyed_wf sort_key_paired)

lemma author_part_wf: "wf_authorship a \<Longrightarrow> author_part a = Some (author_segment a)"
proof -
  assume wf: "wf_authorship a"
  then have obj: "is_obj a" by (simp add: wf_authorship_def)
  obtain g where g: "get a (str ''givenName'') (JStr []) = Some (JStr g)"
    using wf by (auto simp: wf_authorship_def get_field absent_or_def split: option.splits
        elim!: is_str.elims)
  obtain f where f: "get a (str ''familyName'') (JStr []) = Some (JStr f)"
    using wf by (auto simp: wf_authorship_def get_field absent_or_def split: option.splits
        elim!: is_str.elims)
  obtain kvs where au: "get a (str ''author'') (JObj []) = Some (JObj kvs)"
    using wf by (auto simp: wf_authorship_def get_field absent_or_def split: option.splits
        elim!: is_obj.elims)
  have "author_part a \<noteq> None"
    by (cases g) (simp_all add: author_part_def g f au)
  then show ?thesis
    by (auto simp: author_segment_def)
qed

lemma author_parts_wf:
  "list_all wf_authorship as \<Longrightarrow> author_parts as = Some (map author_segment as)"
  by (induction as) (auto simp: author_part_wf)

lemma extract_authors_sorted:
  assumes "wf_authorships pub"
  shows "extract_authors pub
    = Some (join (str '', '') (map author_segment (ordered_authorships pub)))"
proof -
  let ?as = "authorships_of pub"
  from assms have obj: "is_obj pub" and wf: "list_all wf_authorship ?as"
    by (simp_all add: wf_authorships_def)
  have g: "get pub (str ''authorships'') (JArr []) = Some (JArr ?as)"
    using assms
    by (auto simp: wf_authorships_def get_field authorships_of_def split: option.splits json.splits)
  have objs: "list_all is_obj ?as"
    using wf by (simp add: list_all_iff wf_authorship_def)
  have wf': "list_all wf_authorship (filter is_counted ?as)"
    using wf by (simp add: list_all_iff)
  have wf'': "list_all wf_authorship (sort_key sort_position (filter is_counted ?as))"
    using wf' by (simp add: list_all_iff)
  show ?thesis
    by (simp add: extract_authors_def g counted_filter [OF objs] sorted_by_position_wf [OF wf']
        author_parts_wf [OF wf''] ordered_authorships_def)
qed

text \<open>
  Claim C5, as amended. For a record whose authorships have the data model's shape, the
  author string lists the counted authorships, each once, in non-decreasing order of the
  sort position, which is the list position, or the sentinel 999 for an authorship
  without one. So an authorship without a position comes after every authorship whose
  position is below 999.
\<close>

theorem extract_authors_order:
  assumes "wf_authorships pub"
  shows "extract_authors pub
           = Some (join (str '', '') (map author_segment (ordered_authorships pub)))
     \<and> mset (ordered_authorships pub) = mset (filter is_counted (authorships_of pub))
     \<and> sorted (map sort_position (ordered_authorships pub))
     \<and> (\<forall>i j. i < length (ordered_authorships pub) \<and> j < length (ordered_authorships pub)
            \<and> list_position (ordered_authorships pub ! i) = None
            \<and> sort_position (ordered_authorships pub ! j) < 999 \<longrightarrow> j < i)"
proof -
  let ?o = "ordered_authorships pub"
  have srt: "sorted (map sort_position ?o)"
    by (simp add: ordered_authorships_def)
  have "j < i" if "i < length ?o" "j < length ?o" "list_position (?o ! i) = None"
    "sort_position (?o ! j) < 999" for i j
  proof (rule ccontr)
    assume "\<not> j < i"
    then have "i \<le> j" by simp
    then have "map sort_position ?o ! i \<le> map sort_position ?o ! j"
      using srt that(2) by (simp add: sorted_iff_nth_mono del: nth_map)
    then have "sort_position (?o ! i) \<le> sort_position (?o ! j)"
      using that(1,2) by simp
    moreover have "sort_position (?o ! i) = 999"
      using that(3) by (simp add: sort_position_def)
    ultimately show False using that(4) by simp
  qed
  then show ?thesis
    using extract_authors_sorted [OF assms] srt by (auto simp: ordered_authorships_def)
qed

theorem extract_authors_order_witness:
  "wf_authorships authors_example
   \<and> extract_authors authors_example = Some (str ''Solo, <strong>M. Balogh</strong>, C. Late'')"
  using extract_authors_order [of authors_example]
  by (simp add: extract_authors_example) 
     (simp add: authors_example_def wf_authorships_def wf_authorship_def authorships_of_def
      field_def absent_or_def str_def)

text \<open>
  An authorship at position 1000 comes after an authorship that has no position.
\<close>

theorem extract_authors_late_position_counterexample:
  "wf_authorships late_position_example
   \<and> authorships_of late_position_example = [
        JObj [(str ''authorTyped'', JBool True), (str ''listPosition'', JInt 1000),
              (str ''familyName'', JStr (str ''Positioned''))],
        JObj [(str ''authorTyped'', JBool True), (str ''familyName'', JStr (str ''Unpositioned''))]]
   \<and> extract_authors late_position_example = Some (str ''Unpositioned, Positioned'')"
  by (simp add: extract_authors_late_position)
     (simp add: late_position_example_def wf_authorships_def wf_authorship_def authorships_of_def
      field_def absent_or_def str_def)

section \<open>Properties of the renderer\<close>

lemmas render_eval = build_html_def year_group_def year_of_def pub_item_def meta_parts_of_def
  title_html_of_def html_escape_def escape_char_def I_def get_pub_type_def ascii_lower_def
  get_publisher_def get_publisher_book_def get_publisher_doi_def extract_doi_def
  authors_eval venue_eval

lemma get_labelled_lower:
  assumes "is_obj pub" and "absent_or (wf_labelled key) (field pub outer)"
  shows "\<exists>s. (get pub outer (JObj []) \<bind> (\<lambda>t. get t key (JStr []) \<bind> lower_arg L \<bind> f)) = f s"
proof -
  let ?t = "entry pub outer"
  have t: "is_obj ?t" and l: "absent_or is_str (field ?t key)"
    using assms(2) by (auto simp: entry_def absent_or_def wf_labelled_def split: option.splits)
  obtain s where "fld ?t key = JStr s"
    using l by (auto simp: fld_def absent_or_def split: option.splits elim: is_str.elims)
  then have "(get pub outer (JObj []) \<bind> (\<lambda>t. get t key (JStr []) \<bind> lower_arg L \<bind> f))
      = f (str_lower L s)"
    by (simp add: get_entry [OF assms(1)] get_fld [OF t])
  then show ?thesis by blast
qed

lemma get_pub_type_total:
  assumes "is_obj pub" and "wf_type_fields pub"
  shows "\<exists>t. get_pub_type L pub = Some t"
proof -
  from assms(2) have sub: "absent_or (wf_labelled (str ''nameEng'')) (field pub (str ''subType''))"
    and main: "absent_or (wf_labelled (str ''label'')) (field pub (str ''type''))"
    by (simp_all add: wf_type_fields_def)
  define rest where "rest = (\<lambda>sub_label main_label. do {
     journal \<leftarrow> get pub (str ''journal'') JNull;
     if contains (str ''journal'') main_label \<or> truthy journal then Some (str ''journal'')
     else do {
       flag \<leftarrow> get pub (str ''conferencePublication'') (JBool False);
       if contains (str ''conference'') sub_label \<or> truthy flag then Some (str ''conference'')
       else if contains (str ''book'') main_label then
         (if contains (str ''conference'') sub_label then Some (str ''conference'')
          else Some (str ''journal''))
       else Some (str ''conference'')
     }
   })"
  have r: "\<exists>t. rest a b = Some t" for a b
    by (simp add: rest_def get_field [OF assms(1)])
  have "get_pub_type L pub =
      get pub (str ''subType'') (JObj []) \<bind> (\<lambda>t. get t (str ''nameEng'') (JStr []) \<bind> lower_arg L \<bind>
        (\<lambda>sub_label. get pub (str ''type'') (JObj []) \<bind> (\<lambda>t. get t (str ''label'') (JStr []) \<bind> lower_arg L \<bind>
          (\<lambda>main_label. rest sub_label main_label))))"
    by (simp add: get_pub_type_def rest_def)
  moreover obtain a where "get pub (str ''subType'') (JObj []) \<bind> (\<lambda>t. get t (str ''nameEng'') (JStr []) \<bind> lower_arg L \<bind>
        (\<lambda>sub_label. get pub (str ''type'') (JObj []) \<bind> (\<lambda>t. get t (str ''label'') (JStr []) \<bind> lower_arg L \<bind>
          (\<lambda>main_label. rest sub_label main_label))))
      = get pub (str ''type'') (JObj []) \<bind> (\<lambda>t. get t (str ''label'') (JStr []) \<bind> lower_arg L \<bind>
          (\<lambda>main_label. rest a main_label))"
    using get_labelled_lower [OF assms(1) sub] by blast
  moreover obtain b where "get pub (str ''type'') (JObj []) \<bind> (\<lambda>t. get t (str ''label'') (JStr []) \<bind> lower_arg L \<bind>
          (\<lambda>main_label. rest a main_label)) = rest a b"
    using get_labelled_lower [OF assms(1) main] by blast
  ultimately show ?thesis
    using r [of a b] by simp
qed

lemma meta_parts_total: "is_int c \<Longrightarrow> \<exists>ms. meta_parts_of bc bl p c = Some ms"
  by (cases c) (simp_all add: meta_parts_of_def)

lemma pub_item_total:
  assumes "wf_pub pub"
  shows "\<exists>title_html rest. pub_item L pub = Some ((I @ str ''    <div class=\"pub-item\">'') # title_block title_html @ rest)
     \<and> (field pub (str ''title'') = None \<longrightarrow> title_html = unknown_title_html pub)"
proof -
  from assms have pf: "wf_publisher_fields pub" and vf: "wf_venue_fields pub"
    and af: "wf_authorships pub" and tf: "wf_type_fields pub"
    and cit: "absent_or is_int (field pub (str ''citingPubCount''))"
    and tit: "absent_or is_str (field pub (str ''title''))"
    by (simp_all add: wf_pub_def)
  from vf have obj: "is_obj pub" by (simp add: wf_venue_fields_def)
  obtain t where t: "get pub (str ''title'') (JStr (str ''Unknown Title'')) = Some (JStr t)"
    and t_none: "field pub (str ''title'') = None \<longrightarrow> t = str ''Unknown Title''"
    using tit by (auto simp: get_field [OF obj] absent_or_def split: option.splits elim!: is_str.elims)
  from pf have ids: "has_identifiers pub (identifiers_of pub)"
    and urls: "list_all wf_url (identifiers_of pub)"
    by (simp_all add: wf_publisher_fields_def)
  have doi: "extract_doi pub = Some (JStr (doi_link pub))"
    by (rule extract_doi_url [OF ids urls])
  obtain pt where pt: "get_pub_type L pub = Some pt"
    using get_pub_type_total [OF obj tf] by blast
  obtain c where c: "get pub (str ''citingPubCount'') (JInt 0) = Some c" and ci: "is_int c"
    using cit by (auto simp: get_field [OF obj] absent_or_def split: option.splits)
  obtain ms where ms: "meta_parts_of
        (if pt = str ''journal'' then str ''badge-journal'' else str ''badge-conference'')
        (if pt = str ''journal'' then str ''Journal'' else str ''Conference'')
        (publisher_rules pub) c = Some ms"
    using meta_parts_total [OF ci] by blast
  define th where "th = (if doi_link pub \<noteq> []
      then str ''<a href=\"'' @ doi_link pub @ str ''\" target=\"_blank\" rel=\"noopener\">''
             @ html_escape t @ str ''</a>''
      else html_escape t)"
  have th: "title_html_of (html_escape t) (JStr (doi_link pub)) = Some th"
    by (simp add: title_html_of_def th_def)
  define rest where "rest =
      [I @ str ''        <div class=\"pub-authors\">''
          @ join (str '', '') (map author_segment (ordered_authorships pub)) @ str ''</div>'',
        I @ str ''        <div class=\"pub-venue\">''
          @ html_escape (venue_base L pub @ locators pub) @ str ''</div>'',
        I @ str ''        <div class=\"pub-meta\">'']
       @ map (\<lambda>mp. I @ str ''            '' @ mp) ms
       @ [I @ str ''        </div>'', I @ str ''    </div>'', []]"
  have item: "pub_item L pub = Some ((I @ str ''    <div class=\"pub-item\">'') # title_block th @ rest)"
    by (simp add: pub_item_def t doi extract_authors_sorted [OF af] extract_venue_shape [OF vf]
        pt get_publisher_rules [OF pf] c th ms title_block_def rest_def)
  have unknown: "field pub (str ''title'') = None \<longrightarrow> th = unknown_title_html pub"
    using t_none by (auto simp: th_def unknown_title_html_def html_escape_def escape_char_def str_def)
  show ?thesis
    by (intro exI [of _ th] exI [of _ rest] conjI) (fact item, fact unknown)
qed

lemma traverse_total:
  "\<forall>x \<in> set xs. f x \<noteq> None \<Longrightarrow> traverse f xs = Some (map (\<lambda>x. the (f x)) xs)"
  by (induction xs) auto

lemma concat_map_split:
  "x \<in> set xs \<Longrightarrow> \<exists>before after. concat (map g xs) = before @ g x @ after"
proof -
  assume "x \<in> set xs"
  then obtain ys zs where "xs = ys @ x # zs"
    by (meson split_list)
  then have "concat (map g xs) = concat (map g ys) @ g x @ concat (map g zs)"
    by simp
  then show ?thesis by blast
qed

lemma year_of_wf:
  assumes "wf_pub pub"
  shows "year_of pub = Some (if published_year pub = 0 then None else Some (published_year pub))"
proof -
  from assms have obj: "is_obj pub" and y: "absent_or is_int (field pub (str ''publishedYear''))"
    by (simp_all add: wf_pub_def wf_venue_fields_def)
  show ?thesis
    using y
    by (auto simp: year_of_def get_field [OF obj] published_year_def absent_or_def
        split: option.splits elim!: is_int.elims)
qed

lemma by_year_of_wf: "list_all wf_pub pubs \<Longrightarrow> by_year_of pubs = Some (dated pubs)"
  by (induction pubs) (auto simp: year_of_wf dated_def)

lemma pub_item_defined: "wf_pub pub \<Longrightarrow> pub_item L pub \<noteq> None"
  using pub_item_total [of pub L] by auto

lemma year_group_wf:
  assumes "list_all wf_pub pubs"
  shows "year_group L (dated pubs) y =
     Some ([I @ str ''<div class=\"year-group\">'',
            I @ str ''    <div class=\"year-label\">'' @ str_of_int y @ str ''</div>'',
            []]
           @ concat (map (\<lambda>p. the (pub_item L p)) (filter (\<lambda>p. published_year p = y \<and> y \<noteq> 0) pubs))
           @ [I @ str ''</div>'', []])"
proof -
  have sel: "map snd (filter (\<lambda>(y', pub). y' = y) (dated pubs))
      = filter (\<lambda>p. published_year p = y \<and> y \<noteq> 0) pubs"
    by (induction pubs) (auto simp: dated_def)
  have "\<forall>p \<in> set (filter (\<lambda>p. published_year p = y \<and> y \<noteq> 0) pubs). pub_item L p \<noteq> None"
    using assms by (auto simp: list_all_iff pub_item_defined)
  then show ?thesis
    by (simp add: year_group_def sel traverse_total)
qed

text \<open>
  Claim C9. For a list of raw records of the data model's shape, every record with a
  non-zero published year and no title field is rendered with the literal text
  "Unknown Title" in its title position, inside a link to the DOI URL when the record
  has a DOI URL, as plain text otherwise.
\<close>

theorem build_html_unknown_title:
  assumes "list_all wf_pub pubs" and "pub \<in> set pubs"
    and "published_year pub \<noteq> 0" and "field pub (str ''title'') = None"
  shows "\<exists>before after. build_html L pubs =
     Some (join [10] (before @ title_block (unknown_title_html pub) @ after))"
proof -
  let ?y = "published_year pub"
  let ?years = "rev (sort (remdups (map fst (dated pubs))))"
  let ?group = "\<lambda>y. the (year_group L (dated pubs) y)"
  have wf: "wf_pub pub"
    using assms(1,2) by (simp add: list_all_iff)
  have groups: "traverse (year_group L (dated pubs)) ?years = Some (map ?group ?years)"
    by (rule traverse_total) (simp add: year_group_wf [OF assms(1)])
  have html: "build_html L pubs = Some (join [10] (concat (map ?group ?years)))"
    by (simp add: build_html_def by_year_of_wf [OF assms(1)] groups)
  have "(?y, pub) \<in> set (dated pubs)"
    using assms(2,3) by (auto simp: dated_def)
  then have "?y \<in> fst ` set (dated pubs)"
    by (rule rev_image_eqI) simp
  then have "?y \<in> set ?years"
    by simp
  then obtain b1 a1 where 1: "concat (map ?group ?years) = b1 @ ?group ?y @ a1"
    using concat_map_split [of ?y ?years ?group] by blast
  have "pub \<in> set (filter (\<lambda>p. published_year p = ?y \<and> ?y \<noteq> 0) pubs)"
    using assms(2,3) by simp
  then obtain b2 a2 where 2: "concat (map (\<lambda>p. the (pub_item L p))
        (filter (\<lambda>p. published_year p = ?y \<and> ?y \<noteq> 0) pubs)) = b2 @ the (pub_item L pub) @ a2"
    using concat_map_split [of pub _ "\<lambda>p. the (pub_item L p)"] by blast
  obtain rest where 3: "the (pub_item L pub) =
      (I @ str ''    <div class=\"pub-item\">'') # title_block (unknown_title_html pub) @ rest"
    using pub_item_total [OF wf, of L] assms(4) by auto
  define b3 where "b3 = [I @ str ''<div class=\"year-group\">'',
            I @ str ''    <div class=\"year-label\">'' @ str_of_int ?y @ str ''</div>'',
            []] @ b2 @ [I @ str ''    <div class=\"pub-item\">'']"
  define a3 where "a3 = rest @ a2 @ [I @ str ''</div>'', []]"
  have 4: "?group ?y = b3 @ title_block (unknown_title_html pub) @ a3"
    unfolding year_group_wf [OF assms(1)] 2 3 option.sel b3_def a3_def by simp
  have "build_html L pubs =
      Some (join [10] ((b1 @ b3) @ title_block (unknown_title_html pub) @ (a3 @ a1)))"
    unfolding html 1 4 by simp
  then show ?thesis by blast
qed

lemmas wf_pub_eval = wf_pub_def publisher_eval wf_venue_fields_def wf_titled_def wf_journal_def
  wf_authorships_def wf_authorship_def authorships_of_def wf_type_fields_def wf_labelled_def

theorem build_html_unknown_title_witness:
  "list_all wf_pub [untitled_example] \<and> untitled_example \<in> set [untitled_example]
   \<and> published_year untitled_example \<noteq> 0 \<and> field untitled_example (str ''title'') = None
   \<and> build_html ascii_methods [untitled_example] = Some (join [10] [
     str ''            <div class=\"year-group\">'',
     str ''                <div class=\"year-label\">2023</div>'',
     [],
     str ''                <div class=\"pub-item\">'',
     str ''                    <div class=\"pub-title\">'',
     str ''                        <a href=\"https://doi.org/10.1109/X\" target=\"_blank\" rel=\"noopener\">Unknown Title</a>'',
     str ''                    </div>'',
     str ''                    <div class=\"pub-authors\"></div>'',
     str ''                    <div class=\"pub-venue\"></div>'',
     str ''                    <div class=\"pub-meta\">'',
     str ''                        <span class=\"pub-badge badge-conference\">Conference</span>'',
     str ''                        <span>IEEE</span>'',
     str ''                        <span class=\"badge-citations\">Cited by 3</span>'',
     str ''                    </div>'',
     str ''                </div>'',
     [],
     str ''            </div>'',
     []])"
  using build_html_unknown_title [of "[untitled_example]" untitled_example]
  by (simp add: untitled_example_def wf_pub_eval published_year_def render_eval str_def)

text \<open>
  Claim C1 fails on the code: the title and the venue are escaped, the author names
  are not. A family name that holds markup reaches the fragment as it is.
\<close>

theorem build_html_author_not_escaped:
  "build_html ascii_methods [script_author] = Some (join [10] [
     str ''            <div class=\"year-group\">'',
     str ''                <div class=\"year-label\">2024</div>'',
     [],
     str ''                <div class=\"pub-item\">'',
     str ''                    <div class=\"pub-title\">'',
     str ''                        A &lt;b&gt; &amp; B'',
     str ''                    </div>'',
     str ''                    <div class=\"pub-authors\">E. <script>alert(1)</script></div>'',
     str ''                    <div class=\"pub-venue\"></div>'',
     str ''                    <div class=\"pub-meta\">'',
     str ''                        <span class=\"pub-badge badge-conference\">Conference</span>'',
     str ''                    </div>'',
     str ''                </div>'',
     [],
     str ''            </div>'',
     []])"
  by (simp add: script_author_def render_eval str_def)

section \<open>Properties of the patcher\<close>

lemma contains_iff: "contains needle s \<longleftrightarrow> (\<exists>b a. s = b @ needle @ a)"
proof (induction s)
  case Nil
  show ?case by auto
next
  case (Cons c cs)
  show ?case
  proof
    assume "contains needle (c # cs)"
    then consider "prefix needle (c # cs)" | "contains needle cs" by auto
    then show "\<exists>b a. c # cs = b @ needle @ a"
    proof cases
      case 1
      then obtain a where "c # cs = needle @ a" by (auto simp: prefix_def)
      then have "c # cs = [] @ needle @ a" by simp
      then show ?thesis by blast
    next
      case 2
      with Cons obtain b a where "cs = b @ needle @ a" by auto
      then have "c # cs = (c # b) @ needle @ a" by simp
      then show ?thesis by blast
    qed
  next
    assume "\<exists>b a. c # cs = b @ needle @ a"
    then obtain b a where eq: "c # cs = b @ needle @ a" by blast
    show "contains needle (c # cs)"
    proof (cases b)
      case Nil
      with eq have "prefix needle (c # cs)" by (simp add: prefix_def)
      then show ?thesis by simp
    next
      case (Cons b0 b')
      with eq have "cs = b' @ needle @ a" by simp
      with Cons.IH have "contains needle cs" by blast
      then show ?thesis by simp
    qed
  qed
qed

lemma split_at_first:
  assumes "needle \<noteq> []" and "\<not> contains needle (p @ butlast needle)"
  shows "split_at needle (p @ needle @ r) = Some (p, r)"
  using assms(2)
proof (induction p)
  case Nil
  obtain c n' where n: "needle = c # n'"
    using assms(1) by (cases needle) auto
  have "prefix needle (c # n' @ r)"
    by (simp add: n)
  then have "split_at needle (c # n' @ r) = Some ([], drop (length needle) (c # n' @ r))"
    by simp
  then show ?case
    by (simp add: n)
next
  case (Cons c p)
  have no_prefix: "\<not> prefix needle (c # p @ needle @ r)"
  proof
    assume pre: "prefix needle (c # p @ needle @ r)"
    have "prefix ((c # p) @ butlast needle) ((c # p) @ butlast needle @ [last needle] @ r)"
      by simp
    then have "prefix ((c # p) @ butlast needle) (c # p @ needle @ r)"
      using assms(1) by (metis append.assoc append_Cons append_Nil append_butlast_last_id)
    moreover have "length needle \<le> length ((c # p) @ butlast needle)"
      by simp
    ultimately have "prefix needle ((c # p) @ butlast needle)"
      using pre by (meson prefix_length_prefix)
    then have "contains needle ((c # p) @ butlast needle)"
      by simp
    with Cons.prems show False by simp
  qed
  have "\<not> contains needle (p @ butlast needle)"
    using Cons.prems by simp
  with Cons.IH have "split_at needle (p @ needle @ r) = Some (p, r)"
    by simp
  with no_prefix show ?case by simp
qed

lemma MARKER_START_nonempty: "MARKER_START \<noteq> []"
  by (simp add: MARKER_START_def)

lemma MARKER_END_nonempty: "MARKER_END \<noteq> []"
  by (simp add: MARKER_END_def)

lemma subn_markers_no_pair:
  assumes "\<not> marker_pair_in doc"
  shows "subn_markers expand doc = (doc, 0)"
proof (cases "split_at MARKER_START doc")
  case None
  then show ?thesis by (simp add: subn_markers.simps [of expand doc])
next
  case (Some x)
  obtain before rest where x: "x = (before, rest)" by (cases x)
  with Some have doc: "doc = before @ MARKER_START @ rest"
    by (auto dest: split_at_Some)
  show ?thesis
  proof (cases "split_at MARKER_END rest")
    case None
    then show ?thesis
      using Some x by (simp add: subn_markers.simps [of expand doc])
  next
    case (Some y)
    obtain between after where "y = (between, after)" by (cases y)
    with Some have "rest = between @ MARKER_END @ after"
      by (auto dest: split_at_Some)
    with doc have "marker_pair_in doc"
      unfolding marker_pair_in_def by blast
    with assms show ?thesis by simp
  qed
qed

lemma subn_markers_assemble:
  assumes "list_all clean_segment segs" and "\<not> marker_pair_in tail"
  shows "subn_markers expand (assemble segs tail) = (patched expand segs tail, length segs)"
  using assms(1)
proof (induction segs)
  case Nil
  show ?case by (simp add: subn_markers_no_pair [OF assms(2)])
next
  case (Cons seg segs)
  obtain pre mid where seg: "seg = (pre, mid)" by (cases seg)
  from Cons.prems have rest: "list_all clean_segment segs" and "clean_segment seg"
    by simp_all
  with seg have s: "\<not> contains MARKER_START (pre @ butlast MARKER_START)"
    and e: "\<not> contains MARKER_END (mid @ butlast MARKER_END)"
    by (simp_all add: clean_segment_def)
  have 1: "split_at MARKER_START (pre @ MARKER_START @ mid @ MARKER_END @ assemble segs tail)
      = Some (pre, mid @ MARKER_END @ assemble segs tail)"
    by (rule split_at_first [OF MARKER_START_nonempty s])
  have 2: "split_at MARKER_END (mid @ MARKER_END @ assemble segs tail) = Some (mid, assemble segs tail)"
    by (rule split_at_first [OF MARKER_END_nonempty e])
  show ?case
    using Cons.IH [OF rest]
    by (simp add: seg subn_markers.simps [of expand "pre @ MARKER_START @ mid @ MARKER_END @ assemble segs tail"] 1 2)
qed

lemma no_end_no_pair: "\<not> contains MARKER_END doc \<Longrightarrow> \<not> marker_pair_in doc"
proof
  assume no: "\<not> contains MARKER_END doc" and "marker_pair_in doc"
  then obtain a b c where "doc = a @ MARKER_START @ b @ MARKER_END @ c"
    unfolding marker_pair_in_def by blast
  then have "doc = (a @ MARKER_START @ b) @ MARKER_END @ c" by simp
  then have "contains MARKER_END doc" unfolding contains_iff by blast
  with no show False by simp
qed

lemma update_index_no_pair:
  assumes "\<not> marker_pair_in (index_html w)"
  shows "update_index html w =
     (case compile_template (replacement_of html) of
        None \<Rightarrow> (Raised, w)
      | Some expand \<Rightarrow>
          (Returned False,
           w\<lparr>stdout := stdout w @
              [str ''ERROR: Could not find publication markers in index.html!'',
               str ''Looking for: '' @ MARKER_START @ str '' ... '' @ MARKER_END]\<rparr>))"
  by (simp add: update_index_def re_subn_def replacement_of_def subn_markers_no_pair [OF assms]
      split: option.splits)

lemma backslash_free_template:
  "92 \<notin> set html \<Longrightarrow> compile_template (replacement_of html) = Some (\<lambda>whole. replacement_of html)"
  by (simp add: compile_template_def replacement_of_def MARKER_START_def MARKER_END_def str_def)

text \<open>
  Claim C3. For every target document without a marker pair and every fragment, the
  patch operation does not write the file and leaves its text unchanged; it reports the
  failure, by printing the error lines and returning \<^verbatim>\<open>False\<close> or, for a fragment that
  is a malformed replacement template, by the uncaught \<^verbatim>\<open>re.error\<close>; and the process,
  once it has publications to render, exits with status 1, after printing that the
  update failed or with the traceback of the exception.
\<close>

theorem update_index_zero_pairs:
  assumes "\<not> marker_pair_in (index_html w)"
  shows "index_html (snd (update_index html w)) = index_html w
     \<and> writes (snd (update_index html w)) = writes w
     \<and> (if compile_template (replacement_of html) = None
         then fst (update_index html w) = Raised
         else fst (update_index html w) = Returned False
              \<and> stdout (snd (update_index html w)) = stdout w @
                  [str ''ERROR: Could not find publication markers in index.html!'',
                   str ''Looking for: '' @ MARKER_START @ str '' ... '' @ MARKER_END])
     \<and> (if publications = [] then True
         else fst (main L publications w) = 1
              \<and> index_html (snd (main L publications w)) = index_html w
              \<and> writes (snd (main L publications w)) = writes w
              \<and> (traceback (snd (main L publications w)) \<or>
                  last (stdout (snd (main L publications w))) = str ''Failed to update index.html.''))"
proof -
  have u: "index_html (snd (update_index html w')) = index_html w'
      \<and> writes (snd (update_index html w')) = writes w'
      \<and> traceback (snd (update_index html w')) = traceback w'
      \<and> fst (update_index html w') \<noteq> Returned True"
    if "\<not> marker_pair_in (index_html w')" for html w'
    by (simp add: update_index_no_pair [OF that] split: option.splits)
  have m: "fst (main L publications w) = 1
      \<and> index_html (snd (main L publications w)) = index_html w
      \<and> writes (snd (main L publications w)) = writes w
      \<and> (traceback (snd (main L publications w)) \<or>
          last (stdout (snd (main L publications w))) = str ''Failed to update index.html.'')"
    if ne: "publications \<noteq> []"
  proof (cases "build_html L publications")
    case None
    then show ?thesis
      using ne by (simp add: main_def Let_def say_def uncaught_def)
  next
    case (Some h)
    define w3 where "w3 = say (str ''\<newline>Updating index.html...'')
        (say (str ''\<newline>Processing '' @ str_of_int (int (length publications))
                          @ str '' publications...'')
          (say (str ''Fetching publications from MTMT...'') w))"
    have w3: "index_html w3 = index_html w" "writes w3 = writes w"
      by (simp_all add: w3_def say_def)
    then have np: "\<not> marker_pair_in (index_html w3)"
      using assms by simp
    obtain r w4 where r: "update_index h w3 = (r, w4)"
      by (cases "update_index h w3")
    with u [OF np, of h] w3 have w4: "index_html w4 = index_html w" "writes w4 = writes w"
      "r \<noteq> Returned True"
      by simp_all
    have main: "main L publications w =
        (case r of Raised \<Rightarrow> uncaught w4
         | Returned success \<Rightarrow>
             if success then (0, say (str ''Done! Publications updated successfully.'') w4)
             else (1, say (str ''Failed to update index.html.'') w4))"
      using ne Some r by (simp add: main_def Let_def w3_def)
    show ?thesis
      using w4 by (cases r) (auto simp: main say_def uncaught_def)
  qed
  show ?thesis
    using m by (simp add: update_index_no_pair [OF assms] split: option.splits)
qed

theorem update_index_zero_pairs_witness:
  "\<not> marker_pair_in (index_html start_only_page)
   \<and> update_index (str ''X'') start_only_page =
       (Returned False, start_only_page\<lparr>stdout :=
          [str ''ERROR: Could not find publication markers in index.html!'',
           str ''Looking for: <!-- PUBLICATIONS_START --> ... <!-- PUBLICATIONS_END -->'']\<rparr>)
   \<and> fst (main ascii_methods [untitled_example] start_only_page) = 1
   \<and> index_html (snd (main ascii_methods [untitled_example] start_only_page)) = index_html start_only_page
   \<and> writes (snd (main ascii_methods [untitled_example] start_only_page)) = 0"
proof -
  have np: "\<not> marker_pair_in (index_html start_only_page)"
    by (rule no_end_no_pair) (simp add: start_only_page_def MARKER_END_def str_def)
  have t: "compile_template (replacement_of (str ''X'')) = Some (\<lambda>whole. replacement_of (str ''X''))"
    by (simp add: backslash_free_template str_def)
  have "update_index (str ''X'') start_only_page =
       (Returned False, start_only_page\<lparr>stdout := stdout start_only_page @
          [str ''ERROR: Could not find publication markers in index.html!'',
           str ''Looking for: '' @ MARKER_START @ str '' ... '' @ MARKER_END]\<rparr>)"
    by (simp add: update_index_no_pair [OF np] t)
  then have u: "update_index (str ''X'') start_only_page =
       (Returned False, start_only_page\<lparr>stdout :=
          [str ''ERROR: Could not find publication markers in index.html!'',
           str ''Looking for: <!-- PUBLICATIONS_START --> ... <!-- PUBLICATIONS_END -->'']\<rparr>)"
    by (simp add: start_only_page_def MARKER_START_def MARKER_END_def str_def)
  show ?thesis
    using update_index_zero_pairs [OF np, of "str ''X''" "[untitled_example]"] np u
    by (simp add: start_only_page_def)
qed

text \<open>
  Claim C2, as amended. One invocation of the patcher replaces every marker pair of the
  document, scanning from the left: on a document made of n clean segments and a tail
  without a pair it performs n replacements, so exactly one when the document holds
  exactly one pair. With at least one replacement it opens the file for writing once:
  it writes the patched text and prints the count, or, when the patched text holds a
  surrogate code point and cannot be encoded, raises and leaves the file empty.
\<close>

theorem update_index_replaces_every_pair:
  assumes "list_all clean_segment segs" and "\<not> marker_pair_in tail"
    and "index_html w = assemble segs tail"
    and "compile_template (replacement_of html) = Some expand"
  shows "re_subn (replacement_of html) (index_html w) = Some (patched expand segs tail, length segs)
     \<and> update_index html w =
        (if segs = []
         then (Returned False,
               w\<lparr>stdout := stdout w @
                  [str ''ERROR: Could not find publication markers in index.html!'',
                   str ''Looking for: '' @ MARKER_START @ str '' ... '' @ MARKER_END]\<rparr>)
         else if utf8_encodable (patched expand segs tail)
         then (Returned True,
               w\<lparr>index_html := universal_newlines (patched expand segs tail),
                 writes := Suc (writes w),
                 stdout := stdout w @
                  [str ''Updated index.html ('' @ str_of_int (int (length segs))
                     @ str '' replacement(s) made).'']\<rparr>)
         else (Raised, w\<lparr>index_html := [], writes := Suc (writes w)\<rparr>))"
proof -
  have "re_subn (replacement_of html) (index_html w) = Some (patched expand segs tail, length segs)"
    by (simp add: re_subn_def assms(3,4) subn_markers_assemble [OF assms(1,2)])
  then show ?thesis
    by (simp add: update_index_def replacement_of_def)
qed

lemmas patch_eval = update_index_def re_subn_def compile_template_def replacement_of_def
  utf8_encodable_def
  subn_markers.simps MARKER_START_def MARKER_END_def str_of_int_def digits_of.simps

theorem update_index_replaces_every_pair_witness:
  "list_all clean_segment [(str ''A'', str ''old 1''), (str ''B'', str ''old 2'')]
   \<and> \<not> marker_pair_in (str ''C'')
   \<and> index_html two_pairs_page = assemble [(str ''A'', str ''old 1''), (str ''B'', str ''old 2'')] (str ''C'')
   \<and> compile_template (replacement_of (str ''X'')) = Some (\<lambda>whole. replacement_of (str ''X''))
   \<and> re_subn (replacement_of (str ''X'')) (index_html two_pairs_page) = Some (two_pairs_patched, 2)"
proof -
  have 1: "list_all clean_segment [(str ''A'', str ''old 1''), (str ''B'', str ''old 2'')]"
    by (simp add: clean_segment_def MARKER_START_def MARKER_END_def str_def)
  have 2: "\<not> marker_pair_in (str ''C'')"
    by (rule no_end_no_pair) (simp add: MARKER_END_def str_def)
  have 3: "index_html two_pairs_page
      = assemble [(str ''A'', str ''old 1''), (str ''B'', str ''old 2'')] (str ''C'')"
    by (simp add: two_pairs_page_def MARKER_START_def MARKER_END_def str_def)
  have 4: "compile_template (replacement_of (str ''X'')) = Some (\<lambda>whole. replacement_of (str ''X''))"
    by (simp add: backslash_free_template str_def)
  have 5: "patched (\<lambda>whole. replacement_of (str ''X''))
      [(str ''A'', str ''old 1''), (str ''B'', str ''old 2'')] (str ''C'') = two_pairs_patched"
    by (simp add: two_pairs_patched_def replacement_of_def MARKER_START_def MARKER_END_def str_def)
  show ?thesis
    using update_index_replaces_every_pair [OF 1 2 3 4] 1 2 3 4 5 by simp
qed

text \<open>
  A fragment with a lone surrogate (the title "\ud800" of a JSON record comes to it):
  the file has been opened for writing, and so emptied, when the write raises.
\<close>

lemma update_index_unencodable_fragment:
  "update_index [55296] two_pairs_page
     = (Raised, two_pairs_page\<lparr>index_html := [], writes := 1\<rparr>)"
  by (simp add: two_pairs_page_def patch_eval str_def)

text \<open>
  A document with two marker pairs: one invocation replaces both.
\<close>

theorem update_index_two_replacements_counterexample:
  "re_subn (replacement_of (str ''X'')) (index_html two_pairs_page) = Some (two_pairs_patched, 2)
   \<and> update_index (str ''X'') two_pairs_page =
       (Returned True,
        \<lparr>index_html = two_pairs_patched, writes = 1,
         stdout = [str ''Updated index.html (2 replacement(s) made).''], traceback = False\<rparr>)"
  by (simp add: two_pairs_page_def two_pairs_patched_def patch_eval str_def)

end
